theory Spec2Isabelle
  imports Main "HOL-Library.AList"
begin

section \<open>Transfer records and the Batcher\<close>

text \<open>
  The Go struct \<^verbatim>\<open>Bulk{Id string; Type string; Doc []byte}\<close>. Go strings and byte
  slices are byte sequences, so all three fields are \<^typ>\<open>string\<close> (lists of bytes).
\<close>

record Bulk =
  Id :: string
  Type :: string
  Doc :: string

text \<open>
  \<^verbatim>\<open>type Batcher struct { batch []Bulk; size int; dest chan<- []Bulk }\<close>.
  The field \<open>size\<close> is named \<open>sizeB\<close> here (\<open>size\<close> is a constant of HOL). The
  channel is write-only for the Batcher: \<open>dest\<close> is the sequence of batches sent on it so
  far, oldest first; a send appends one element.
\<close>

record Batcher =
  batch :: "Bulk list"
  sizeB :: int
  dest :: "Bulk list list"

text \<open>
  \<^verbatim>\<open>
  func (this *Batcher) Flush() {
      if len(this.batch) != 0 {
          this.dest <- this.batch
          this.batch = []Bulk{}
      }
  }\<close>
\<close>

definition Flush :: "Batcher \<Rightarrow> Batcher" where
  "Flush this =
     (if length (batch this) \<noteq> 0
      then this\<lparr>dest := dest this @ [batch this], batch := []\<rparr>
      else this)"

text \<open>
  \<^verbatim>\<open>
  func (this *Batcher) Put(b Bulk) {
      this.batch = append(this.batch, b)
      if len(this.batch) == this.size {
          this.Flush()
      }
  }\<close>
\<close>

definition Put :: "Batcher \<Rightarrow> Bulk \<Rightarrow> Batcher" where
  "Put this b =
     (let this1 = this\<lparr>batch := batch this @ [b]\<rparr>
      in if int (length (batch this1)) = sizeB this1 then Flush this1 else this1)"

text \<open>The composite literal \<^verbatim>\<open>Batcher{size: bulkSize, dest: dest}\<close>: the buffer starts nil.\<close>

definition newBatcher :: "int \<Rightarrow> Bulk list list \<Rightarrow> Batcher" where
  "newBatcher n d = \<lparr>batch = [], sizeB = n, dest = d\<rparr>"

text \<open>A sequence of \<open>Put\<close> calls, in order.\<close>

definition puts :: "Batcher \<Rightarrow> Bulk list \<Rightarrow> Batcher" where
  "puts this rs = foldl Put this rs"

text \<open>
  The invariant of the \<open>Put\<close> loop for a capacity of at least one: the buffer stays
  strictly below the capacity, every batch sent so far is full, and nothing is lost or
  reordered.
\<close>

definition batcher_inv :: "int \<Rightarrow> Bulk list \<Rightarrow> Batcher \<Rightarrow> bool" where
  "batcher_inv n rs this \<longleftrightarrow>
     sizeB this = n \<and> int (length (batch this)) < n \<and>
     list_all (\<lambda>x. int (length x) = n) (dest this) \<and>
     concat (dest this) @ batch this = rs"

section \<open>Errors, JSON values and HTTP bodies\<close>

text \<open>
  Go's \<^verbatim>\<open>error\<close> values, by origin: a failed HTTP exchange (\<^verbatim>\<open>client.Do\<close>,
  \<^verbatim>\<open>client.Get\<close>, \<^verbatim>\<open>http.NewRequest\<close>, \<^verbatim>\<open>ioutil.ReadAll\<close>), the error
  \<^verbatim>\<open>readRequest\<close> builds for a status of 300 or more, the two errors of
  \<^verbatim>\<open>json.Unmarshal\<close> (a text that is not JSON; a JSON value that does not fit the Go
  type), \<^verbatim>\<open>io.EOF\<close>, and the run-time panics of a failed type assertion and of
  \<^verbatim>\<open>WaitGroup.Add\<close> with a negative counter.
\<close>

datatype error =
    TransportError string
  | HttpError string
  | SyntaxError
  | UnmarshalTypeError
  | MarshalError
  | EOF
  | TypeAssertion
  | NegativeWaitGroup

text \<open>
  A JSON value. A number keeps its literal; an object keeps its members in the order of
  the text. It is also the model of a Go value of type \<^verbatim>\<open>Any\<close> (\<^verbatim>\<open>interface{}\<close>)
  that \<^verbatim>\<open>json.Unmarshal\<close> produced: the functions below only store such values and
  hand them back to \<^verbatim>\<open>json.Marshal\<close>.
\<close>

datatype json =
    JNull
  | JBool bool
  | JNumber string
  | JString string
  | JArray "json list"
  | JObject "(string \<times> json) list"

text \<open>
  The body of an HTTP message that is handed to \<^verbatim>\<open>json.Unmarshal\<close>, or that
  \<^verbatim>\<open>json.Marshal\<close> produced: either the text of a JSON value, represented by that
  value, or a text that is not JSON.
\<close>

datatype blob = Json json | NotJson string

text \<open>
  \<^verbatim>\<open>err := json.Unmarshal(data, &v)\<close>. The decoder first checks that the whole text is
  JSON and, if not, returns a syntax error and leaves \<open>v\<close> as it was. Otherwise it decodes
  the value into \<open>v\<close> following the Go type of \<open>v\<close>; that type-directed part is the
  argument \<open>decode\<close>, which returns the updated \<open>v\<close> and the first type mismatch, if any
  (the decoder goes on after a mismatch).
\<close>

definition Unmarshal :: "(json \<Rightarrow> 'a \<Rightarrow> 'a \<times> error option) \<Rightarrow> blob \<Rightarrow> 'a \<Rightarrow> 'a \<times> error option" where
  "Unmarshal decode data v =
     (case data of
        NotJson s \<Rightarrow> (v, Some SyntaxError)
      | Json j \<Rightarrow> decode j v)"

section \<open>The bulk endpoint: \<open>Store\<close>, \<open>parseBulkFailures\<close>, \<open>Bulk\<close>\<close>

text \<open>
  \<^verbatim>\<open>
  func (bulk Bulk) Store(wrt io.Writer) error {
      const template = `{ "create" : { "_id" : "%v", "_type": "%v" } }` + "\n%s\n"
      _, err := fmt.Fprintf(wrt, template, bulk.Id, bulk.Type, bulk.Doc)
      return err
  }\<close>
  \<open>Store\<close> is the text written; the writer's error is the caller's concern.
\<close>

definition Store :: "Bulk \<Rightarrow> string" where
  \<open>Store bulk =
     ''{ "create" : { "_id" : "'' @ Id bulk @ ''", "_type": "'' @ Type bulk @ ''" } }'' @
     ''\<newline>'' @ Doc bulk @ ''\<newline>''\<close>

text \<open>
  The anonymous struct of \<^verbatim>\<open>parseBulkFailures\<close>:
  \<^verbatim>\<open>
  var respObj struct {
      Errors bool `json:"errors"`
      Items  []struct {
          Create struct {
              Id     string `json:"_id"`
              Status int    `json:"status"`
          } `json:"create"`
      } `json:"items"`
  }\<close>
\<close>

record Item =
  Create_Id :: string
  Create_Status :: int

record RespObj =
  Errors :: bool
  Items :: "Item list"

definition zeroRespObj :: RespObj where
  "zeroRespObj = \<lparr>Errors = False, Items = []\<rparr>"

text \<open>The lines the program writes with \<^verbatim>\<open>log.Printf\<close> that the claims speak about.\<close>

datatype log_entry =
    LogFailed string int
  | LogImported int int
  | LogPushing int

text \<open>
  The loop over \<^verbatim>\<open>respObj.Items\<close>. \<open>fails\<close> is the Go map \<^verbatim>\<open>map[string]bool\<close>, kept as
  an association list with one entry per key.
  \<^verbatim>\<open>
  for _, item := range respObj.Items {
      if item.Create.Status != 201 {
          if item.Create.Status == 429 || item.Create.Status == 503 {
              fails[item.Create.Id] = true
          } else if item.Create.Status == 409 {
              // ignore already exists error
          } else {
              log.Printf("Failed %s with %d", item.Create.Id, item.Create.Status)
          }
      }
  }\<close>
\<close>

fun failuresLoop :: "Item list \<Rightarrow> (string \<times> bool) list \<Rightarrow> log_entry list \<Rightarrow> (string \<times> bool) list \<times> log_entry list" where
  "failuresLoop [] fails lg = (fails, lg)"
| "failuresLoop (item # items) fails lg =
     (if Create_Status item \<noteq> 201 then
        if Create_Status item = 429 \<or> Create_Status item = 503 then
          failuresLoop items (AList.update (Create_Id item) True fails) lg
        else if Create_Status item = 409 then
          failuresLoop items fails lg
        else
          failuresLoop items fails (lg @ [LogFailed (Create_Id item) (Create_Status item)])
      else failuresLoop items fails lg)"

text \<open>
  \<^verbatim>\<open>
  func parseBulkFailures(resp []byte) (fails map[string]bool, err error) {
      fails = map[string]bool{}
      ...
      err = json.Unmarshal(resp, &respObj)
      if err != nil {
          return
      }
      if respObj.Errors {
          for ... (the loop above)
      }
      return fails, nil
  }\<close>
  The result is the pair \<open>(fails, err)\<close> and the lines logged.
\<close>

definition parseBulkFailures ::
  "(json \<Rightarrow> RespObj \<Rightarrow> RespObj \<times> error option) \<Rightarrow> blob \<Rightarrow>
     ((string \<times> bool) list \<times> error option) \<times> log_entry list" where
  "parseBulkFailures decodeResp resp =
     (case Unmarshal decodeResp resp zeroRespObj of
        (respObj, Some e) \<Rightarrow> (([], Some e), [])
      | (respObj, None) \<Rightarrow>
          if Errors respObj then
            (case failuresLoop (Items respObj) [] [] of (fails, lg) \<Rightarrow> ((fails, None), lg))
          else (([], None), []))"

text \<open>
  The loop of \<open>Bulk\<close> that collects the operations to retry:
  \<^verbatim>\<open>
  for _, op := range ops {
      if _, ok := fails[op.Id]; ok {
          ret = append(ret, op)
      }
  }\<close>
\<close>

fun collectFailed :: "(string \<times> bool) list \<Rightarrow> Bulk list \<Rightarrow> Bulk list \<Rightarrow> Bulk list" where
  "collectFailed fails [] ret = ret"
| "collectFailed fails (op # ops) ret =
     (if map_of fails (Id op) \<noteq> None then collectFailed fails ops (ret @ [op])
      else collectFailed fails ops ret)"

text \<open>
  \<^verbatim>\<open>
  func (this *EsConn) Bulk(ops []Bulk) (ret []Bulk, err error) {
      bodyBuf := bytes.Buffer{}
      for _, b := range ops {
          b.Store(&bodyBuf)
      }
      url := fmt.Sprintf("%s%s/_bulk", this.hostPrefix, this.path)
      request, err := http.NewRequest("PUT", url, &bodyBuf)
      if err != nil {
          return nil, err
      }
      resp, err := readRequest(this.client, request)
      if err != nil {
          return
      }
      fails, err := parseBulkFailures(resp)
      if err != nil {
          return
      }
      if len(fails) > 0 {
          for ... (the loop above)
      }
      return
  }\<close>
  The destination is the argument \<open>readRequest\<close>: it maps the request body to the outcome
  of the exchange, an error (of \<^verbatim>\<open>http.NewRequest\<close>, of the transport, or a status of 300
  or more) or the response body.
\<close>

definition bulkBody :: "Bulk list \<Rightarrow> string" where
  "bulkBody ops = concat (map Store ops)"

definition EsConn_Bulk ::
  "(json \<Rightarrow> RespObj \<Rightarrow> RespObj \<times> error option) \<Rightarrow> (string \<Rightarrow> error + blob) \<Rightarrow> Bulk list \<Rightarrow>
     (Bulk list \<times> error option) \<times> log_entry list" where
  "EsConn_Bulk decodeResp readRequest ops =
     (case readRequest (bulkBody ops) of
        Inl e \<Rightarrow> (([], Some e), [])
      | Inr resp \<Rightarrow>
          (case parseBulkFailures decodeResp resp of
             ((fails, Some e), lg) \<Rightarrow> (([], Some e), lg)
           | ((fails, None), lg) \<Rightarrow>
               if 0 < length fails then ((collectFailed fails ops [], None), lg)
               else (([], None), lg)))"


section \<open>Index metadata and its JSON form\<close>

text \<open>
  \<^verbatim>\<open>
  type Index struct {
      Aliases  map[string]Any `json:"aliases"`
      Mappings map[string]Any `json:"mappings"`
      Settings IndexSettings  `json:"settings"`
      Warmers  map[string]Any `json:"warmers"`
  }
  type IndexSettings struct {
      Index struct {
          Cache      Any    `json:"cache"`
          NumShards  string `json:"number_of_shards"`
          NumRepls   string `json:"number_of_replicas"`
          Refresh    Any    `json:"refresh_interval"`
          Similarity Any    `json:"similarity"`
          Analysis   Any    `json:"analysis"`
          TransLog   Any    `json:"translog"`
          Uuid       Any    `json:"uuid"`
          Version    Any    `json:"version"`
      } `json:"index"`
  }\<close>
  A Go map \<^verbatim>\<open>map[string]Any\<close> is an association list with one entry per key, or
  \<open>None\<close> for the nil map. A nil \<^verbatim>\<open>Any\<close> is \<open>JNull\<close>.
\<close>

type_synonym AnyMap = "(string \<times> json) list option"

record IndexSettings_Index =
  Cache :: json
  NumShards :: string
  NumRepls :: string
  Refresh :: json
  Similarity :: json
  Analysis :: json
  TransLog :: json
  Uuid :: json
  Version :: json

record IndexSettings =
  Index :: IndexSettings_Index

record Index =
  Aliases :: AnyMap
  Mappings :: AnyMap
  Settings :: IndexSettings
  Warmers :: AnyMap

text \<open>The zero value of \<^verbatim>\<open>Index\<close>.\<close>

definition zeroIndex :: Index where
  "zeroIndex =
     \<lparr>Aliases = None, Mappings = None,
      Settings = \<lparr>Index = \<lparr>Cache = JNull, NumShards = [], NumRepls = [], Refresh = JNull,
        Similarity = JNull, Analysis = JNull, TransLog = JNull, Uuid = JNull,
        Version = JNull\<rparr>\<rparr>,
      Warmers = None\<rparr>"

text \<open>
  How \<^verbatim>\<open>encoding/json\<close> finds the struct field for an object key: the key matches the
  field's name exactly or under case folding. For names in ASCII the folding maps the
  letters \<open>a\<close> to \<open>z\<close> to upper case and, besides, the two runes that Unicode folds
  to an ASCII letter: U+017F (bytes C5 BF) to \<open>S\<close> and U+212A (bytes E2 84 AA) to \<open>K\<close>.
\<close>

definition upperASCII :: "char \<Rightarrow> char" where
  "upperASCII c =
     (case map_of (zip ''abcdefghijklmnopqrstuvwxyz'' ''ABCDEFGHIJKLMNOPQRSTUVWXYZ'') c of
        None \<Rightarrow> c
      | Some u \<Rightarrow> u)"

fun foldKey :: "string \<Rightarrow> string" where
  "foldKey [] = []"
| "foldKey (c # cs) =
     (if c = CHR 0xC5 \<and> take 1 cs = [CHR 0xBF] then CHR ''S'' # foldKey (drop 1 cs)
      else if c = CHR 0xE2 \<and> take 2 cs = [CHR 0x84, CHR 0xAA] then CHR ''K'' # foldKey (drop 2 cs)
      else upperASCII c # foldKey cs)"

definition matchesField :: "string \<Rightarrow> string \<Rightarrow> bool" where
  "matchesField name key \<longleftrightarrow> key = name \<or> foldKey key = foldKey name"

text \<open>
  Decoding the members of a JSON object one after the other into a Go value; the first
  type mismatch is kept and decoding goes on.
\<close>

fun decodeMembers ::
  "(string \<Rightarrow> json \<Rightarrow> 'a \<Rightarrow> 'a \<times> error option) \<Rightarrow> (string \<times> json) list \<Rightarrow> 'a \<Rightarrow> 'a \<times> error option" where
  "decodeMembers f [] v = (v, None)"
| "decodeMembers f ((k, j) # ms) v =
     (case f k j v of
        (v1, e1) \<Rightarrow>
          (case decodeMembers f ms v1 of
             (v2, e2) \<Rightarrow> (v2, case e1 of None \<Rightarrow> e2 | Some e \<Rightarrow> Some e)))"

text \<open>
  Into a struct: an object is decoded member by member, \<^verbatim>\<open>null\<close> changes nothing, any
  other value is a type mismatch.
\<close>

definition decodeStruct ::
  "(string \<Rightarrow> json \<Rightarrow> 'a \<Rightarrow> 'a \<times> error option) \<Rightarrow> json \<Rightarrow> 'a \<Rightarrow> 'a \<times> error option" where
  "decodeStruct f j v =
     (case j of
        JObject ms \<Rightarrow> decodeMembers f ms v
      | JNull \<Rightarrow> (v, None)
      | _ \<Rightarrow> (v, Some UnmarshalTypeError))"

text \<open>Into an \<^verbatim>\<open>Any\<close>: the value itself (\<^verbatim>\<open>null\<close> gives nil).\<close>

definition decodeAny :: "json \<Rightarrow> json \<Rightarrow> json \<times> error option" where
  "decodeAny j v = (j, None)"

text \<open>Into a \<^verbatim>\<open>string\<close>: a JSON string; \<^verbatim>\<open>null\<close> changes nothing.\<close>

definition decodeString :: "json \<Rightarrow> string \<Rightarrow> string \<times> error option" where
  "decodeString j v =
     (case j of
        JString s \<Rightarrow> (s, None)
      | JNull \<Rightarrow> (v, None)
      | _ \<Rightarrow> (v, Some UnmarshalTypeError))"

text \<open>
  Into a \<^verbatim>\<open>map[string]Any\<close>: \<^verbatim>\<open>null\<close> sets the map to nil; an object's members are
  stored into the map at hand (a new one if it is nil), a later member replacing an
  earlier one with the same key.
\<close>

definition decodeAnyMap :: "json \<Rightarrow> AnyMap \<Rightarrow> AnyMap \<times> error option" where
  "decodeAnyMap j v =
     (case j of
        JObject ms \<Rightarrow>
          (Some (fold (\<lambda>(k, x) m. AList.update k x m) ms (case v of None \<Rightarrow> [] | Some m \<Rightarrow> m)),
           None)
      | JNull \<Rightarrow> (None, None)
      | _ \<Rightarrow> (v, Some UnmarshalTypeError))"

definition decodeSettingsIndexField ::
  "string \<Rightarrow> json \<Rightarrow> IndexSettings_Index \<Rightarrow> IndexSettings_Index \<times> error option" where
  "decodeSettingsIndexField k j v =
     (if matchesField ''cache'' k then
        (case decodeAny j (Cache v) of (x, e) \<Rightarrow> (v\<lparr>Cache := x\<rparr>, e))
      else if matchesField ''number_of_shards'' k then
        (case decodeString j (NumShards v) of (x, e) \<Rightarrow> (v\<lparr>NumShards := x\<rparr>, e))
      else if matchesField ''number_of_replicas'' k then
        (case decodeString j (NumRepls v) of (x, e) \<Rightarrow> (v\<lparr>NumRepls := x\<rparr>, e))
      else if matchesField ''refresh_interval'' k then
        (case decodeAny j (Refresh v) of (x, e) \<Rightarrow> (v\<lparr>Refresh := x\<rparr>, e))
      else if matchesField ''similarity'' k then
        (case decodeAny j (Similarity v) of (x, e) \<Rightarrow> (v\<lparr>Similarity := x\<rparr>, e))
      else if matchesField ''analysis'' k then
        (case decodeAny j (Analysis v) of (x, e) \<Rightarrow> (v\<lparr>Analysis := x\<rparr>, e))
      else if matchesField ''translog'' k then
        (case decodeAny j (TransLog v) of (x, e) \<Rightarrow> (v\<lparr>TransLog := x\<rparr>, e))
      else if matchesField ''uuid'' k then
        (case decodeAny j (Uuid v) of (x, e) \<Rightarrow> (v\<lparr>Uuid := x\<rparr>, e))
      else if matchesField ''version'' k then
        (case decodeAny j (Version v) of (x, e) \<Rightarrow> (v\<lparr>Version := x\<rparr>, e))
      else (v, None))"

definition decodeSettingsField ::
  "string \<Rightarrow> json \<Rightarrow> IndexSettings \<Rightarrow> IndexSettings \<times> error option" where
  "decodeSettingsField k j v =
     (if matchesField ''index'' k then
        (case decodeStruct decodeSettingsIndexField j (Index v) of (x, e) \<Rightarrow> (v\<lparr>Index := x\<rparr>, e))
      else (v, None))"

definition decodeIndexField :: "string \<Rightarrow> json \<Rightarrow> Index \<Rightarrow> Index \<times> error option" where
  "decodeIndexField k j v =
     (if matchesField ''aliases'' k then
        (case decodeAnyMap j (Aliases v) of (x, e) \<Rightarrow> (v\<lparr>Aliases := x\<rparr>, e))
      else if matchesField ''mappings'' k then
        (case decodeAnyMap j (Mappings v) of (x, e) \<Rightarrow> (v\<lparr>Mappings := x\<rparr>, e))
      else if matchesField ''settings'' k then
        (case decodeStruct decodeSettingsField j (Settings v) of (x, e) \<Rightarrow> (v\<lparr>Settings := x\<rparr>, e))
      else if matchesField ''warmers'' k then
        (case decodeAnyMap j (Warmers v) of (x, e) \<Rightarrow> (v\<lparr>Warmers := x\<rparr>, e))
      else (v, None))"

definition decodeIndex :: "json \<Rightarrow> Index \<Rightarrow> Index \<times> error option" where
  "decodeIndex = decodeStruct decodeIndexField"

text \<open>
  Into \<^verbatim>\<open>map[string]Index\<close> (the variable \<open>meta\<close>): every member of the object is
  decoded into a fresh zero \<^verbatim>\<open>Index\<close> and stored under its key.
\<close>

definition decodeMeta :: "json \<Rightarrow> (string \<times> Index) list \<Rightarrow> (string \<times> Index) list \<times> error option" where
  "decodeMeta j v =
     (case j of
        JObject ms \<Rightarrow>
          decodeMembers (\<lambda>k x m. case decodeIndex x zeroIndex of (ix, e) \<Rightarrow> (AList.update k ix m, e)) ms v
      | JNull \<Rightarrow> (v, None)
      | _ \<Rightarrow> (v, Some UnmarshalTypeError))"

text \<open>
  \<^verbatim>\<open>json.Marshal\<close> of an \<^verbatim>\<open>Index\<close>: every field is written, under the name of its tag;
  a nil map and a nil \<^verbatim>\<open>Any\<close> are written \<^verbatim>\<open>null\<close>. It cannot fail on values that
  came out of \<^verbatim>\<open>json.Unmarshal\<close>.
\<close>

definition encodeAnyMap :: "AnyMap \<Rightarrow> json" where
  "encodeAnyMap m = (case m of None \<Rightarrow> JNull | Some ms \<Rightarrow> JObject ms)"

definition encodeSettingsIndex :: "IndexSettings_Index \<Rightarrow> json" where
  "encodeSettingsIndex v =
     JObject [(''cache'', Cache v), (''number_of_shards'', JString (NumShards v)),
       (''number_of_replicas'', JString (NumRepls v)), (''refresh_interval'', Refresh v),
       (''similarity'', Similarity v), (''analysis'', Analysis v), (''translog'', TransLog v),
       (''uuid'', Uuid v), (''version'', Version v)]"

definition encodeSettings :: "IndexSettings \<Rightarrow> json" where
  "encodeSettings v = JObject [(''index'', encodeSettingsIndex (Index v))]"

definition encodeIndex :: "Index \<Rightarrow> json" where
  "encodeIndex v =
     JObject [(''aliases'', encodeAnyMap (Aliases v)), (''mappings'', encodeAnyMap (Mappings v)),
       (''settings'', encodeSettings (Settings v)), (''warmers'', encodeAnyMap (Warmers v))]"


section \<open>\<open>strconv.Itoa\<close>\<close>

definition digitChar :: "nat \<Rightarrow> char" where
  "digitChar d =
     (if d = 0 then CHR ''0'' else if d = 1 then CHR ''1'' else if d = 2 then CHR ''2''
      else if d = 3 then CHR ''3'' else if d = 4 then CHR ''4'' else if d = 5 then CHR ''5''
      else if d = 6 then CHR ''6'' else if d = 7 then CHR ''7'' else if d = 8 then CHR ''8''
      else CHR ''9'')"

function natDigits :: "nat \<Rightarrow> string" where
  "natDigits n = (if n < 10 then [digitChar n] else natDigits (n div 10) @ [digitChar (n mod 10)])"
  by pat_completeness auto
termination
  by (relation "measure id") auto

declare natDigits.simps [simp del]

definition Itoa :: "int \<Rightarrow> string" where
  "Itoa i = (if i < 0 then CHR ''-'' # natDigits (nat (- i)) else natDigits (nat i))"

section \<open>\<open>PutIndex\<close> and \<open>GetIndex\<close>\<close>

text \<open>\<^verbatim>\<open>meta[k]\<close> on the map \<open>meta\<close>: the zero value for a key that is absent.\<close>

definition lookupIndex :: "(string \<times> Index) list \<Rightarrow> string \<Rightarrow> Index" where
  "lookupIndex meta k = (case map_of meta k of None \<Rightarrow> zeroIndex | Some ix \<Rightarrow> ix)"

definition mapKeys :: "AnyMap \<Rightarrow> string list" where
  "mapKeys m = (case m of None \<Rightarrow> [] | Some ms \<Rightarrow> map fst ms)"

text \<open>
  \<^verbatim>\<open>for k := range meta { oldIndexName = k }\<close>: the variable ends as the key the loop
  visits last, and keeps its initial value when the map is empty.
\<close>

definition lastRanged :: "string \<Rightarrow> string list \<Rightarrow> string" where
  "lastRanged init ks = foldl (\<lambda>name k. k) init ks"

text \<open>
  \<^verbatim>\<open>
  func (this *EsConn) PutIndex(metaString string, repls int, shards int) (err error) {
      meta := make(map[string]Index)
      err = json.Unmarshal([]byte(metaString), &meta)
      if err != nil {
          return
      }
      var oldIndexName string
      for k := range meta { // FIXME: iterating over map of 1 item to get the only key ?
          oldIndexName = k
      }
      this.types = nil
      for k := range meta[oldIndexName].Mappings {
          this.types = append(this.types, k)
      }
      log.Printf("Types %s", this.types)
      metaVal := meta[oldIndexName]
      metaVal.Aliases = map[string]Any{} // clear all aliases
      if repls >= 0 {
          metaVal.Settings.Index.NumRepls = strconv.Itoa(repls)
      }
      if repls >= 0 {
          metaVal.Settings.Index.NumShards = strconv.Itoa(shards)
      }
      metaBlob, err := json.Marshal(metaVal)
      if err != nil {
          return
      }
      reqMapping, err := http.NewRequest("PUT", this.hostPrefix+this.path, bytes.NewBuffer(metaBlob))
      if err != nil {
          return
      }
      _, err = readRequest(this.client, reqMapping)
      return
  }\<close>
  Go leaves the order in which \<^verbatim>\<open>range\<close> visits a map open: \<open>ranged\<close> is the order this
  run takes, given the keys. \<open>readRequest\<close> is the destination: the error, if any, of the
  PUT of the body (\<^verbatim>\<open>http.NewRequest\<close>'s included). \<open>types0\<close> is \<^verbatim>\<open>this.types\<close> before
  the call. The result is \<^verbatim>\<open>this.types\<close> after the call, the body PUT (if the call got
  that far), and the error returned. The two \<^verbatim>\<open>if repls >= 0\<close> statements are
  \<open>overrideSettings\<close>.
\<close>

definition overrideSettings :: "Index \<Rightarrow> int \<Rightarrow> int \<Rightarrow> Index" where
  "overrideSettings metaVal repls shards =
     (let metaVal1 =
            (if repls \<ge> 0
             then metaVal\<lparr>Settings := (Settings metaVal)
                    \<lparr>Index := (Index (Settings metaVal))\<lparr>NumRepls := Itoa repls\<rparr>\<rparr>\<rparr>
             else metaVal);
          metaVal2 =
            (if repls \<ge> 0
             then metaVal1\<lparr>Settings := (Settings metaVal1)
                    \<lparr>Index := (Index (Settings metaVal1))\<lparr>NumShards := Itoa shards\<rparr>\<rparr>\<rparr>
             else metaVal1)
      in metaVal2)"

definition PutIndex ::
  "(string list \<Rightarrow> string list) \<Rightarrow> (blob \<Rightarrow> error option) \<Rightarrow> string list \<Rightarrow> blob \<Rightarrow> int \<Rightarrow> int \<Rightarrow>
     string list \<times> blob option \<times> error option" where
  "PutIndex ranged readRequest types0 metaString repls shards =
     (case Unmarshal decodeMeta metaString [] of
        (meta, Some e) \<Rightarrow> (types0, None, Some e)
      | (meta, None) \<Rightarrow>
          (let oldIndexName = lastRanged [] (ranged (map fst meta));
               types1 = ranged (mapKeys (Mappings (lookupIndex meta oldIndexName)));
               metaVal = lookupIndex meta oldIndexName;
               metaVal1 = metaVal\<lparr>Aliases := Some []\<rparr>;
               metaVal2 = overrideSettings metaVal1 repls shards;
               metaBlob = Json (encodeIndex metaVal2)
           in (types1, Some metaBlob, readRequest metaBlob)))"



section \<open>The scroll: \<open>Next\<close>, \<open>readBulk\<close>, \<open>StreamTo\<close>\<close>

text \<open>
  A hit is a Go map \<^verbatim>\<open>map[string]Any\<close>. \<^verbatim>\<open>h[key]\<close> is nil for a key that is absent.
\<close>

type_synonym hit = "(string \<times> json) list"

definition hitField :: "hit \<Rightarrow> string \<Rightarrow> json" where
  "hitField h key = (case map_of h key of None \<Rightarrow> JNull | Some x \<Rightarrow> x)"

text \<open>
  \<^verbatim>\<open>
  func (this *Scroll) Next() ([]map[string]Any, error) {
      resp, err := this.es.client.Get(this.es.hostPrefix + "/_search/scroll?scroll=5m&scroll_id=" + this.id)
      if err != nil {
          return nil, err
      }
      defer resp.Body.Close()
      data, errRead := ioutil.ReadAll(resp.Body)
      if errRead != nil {
          return nil, errRead
      }
      hits := struct {
          Hits struct {
              Hits []map[string]Any `json:"hits"`
          } `json:"hits"`
      }{}
      json.Unmarshal(data, &hits)
      return hits.Hits.Hits, errRead
  }\<close>
  \<open>got\<close> is the outcome of the GET: its error, or the error of reading the body, or the
  body. \<open>decodeHits\<close> is the type-directed decoding into the struct \<open>hits\<close>, which is
  represented by its only field \<^verbatim>\<open>hits.Hits.Hits\<close>; its zero value is the nil slice.
  The error of \<^verbatim>\<open>json.Unmarshal\<close> is not looked at.
\<close>

definition Next ::
  "(json \<Rightarrow> hit list \<Rightarrow> hit list \<times> error option) \<Rightarrow> (error + (error + blob)) \<Rightarrow> hit list \<times> error option" where
  "Next decodeHits got =
     (case got of
        Inl e \<Rightarrow> ([], Some e)
      | Inr (Inl errRead) \<Rightarrow> ([], Some errRead)
      | Inr (Inr data) \<Rightarrow> (fst (Unmarshal decodeHits data []), None))"

text \<open>
  What the source answers to one scroll: the error of \<^verbatim>\<open>NewScroll\<close>, if any, and the
  outcomes of the successive GETs of \<open>Next\<close>.
\<close>

record scroll_server =
  opened :: "error option"
  replies :: "(error + (error + blob)) list"

text \<open>
  The body of the page loop of \<open>readBulk\<close>; a panic is returned as \<open>Some\<close> error, with
  the Batcher as it was then.
  \<^verbatim>\<open>
  for _, h := range hits {
      bytes, err := json.Marshal(h["_source"])
      if err != nil {
          panic(err)
      }
      batcher.Put(Bulk{Id: h["_id"].(string), Type: typeName, Doc: bytes})
  }\<close>
\<close>

fun putHits :: "(json \<Rightarrow> error + string) \<Rightarrow> string \<Rightarrow> hit list \<Rightarrow> Batcher \<Rightarrow> Batcher \<times> error option" where
  "putHits marshal typeName [] batcher = (batcher, None)"
| "putHits marshal typeName (h # hits) batcher =
     (case marshal (hitField h ''_source'') of
        Inl e \<Rightarrow> (batcher, Some e)
      | Inr bytes \<Rightarrow>
          (case hitField h ''_id'' of
             JString s \<Rightarrow> putHits marshal typeName hits (Put batcher \<lparr>Id = s, Type = typeName, Doc = bytes\<rparr>)
           | _ \<Rightarrow> (batcher, Some TypeAssertion)))"

text \<open>
  \<^verbatim>\<open>
  for hits, err := scroll.Next(); len(hits) != 0 && err == nil; hits, err = scroll.Next() {
      log.Printf("Fetched %d\n", len(hits))
      ... (the loop above)
  }\<close>
  Every turn of the loop takes the next reply of the source. The result is \<open>None\<close> when
  the replies given run out before the loop ends.
\<close>

fun scrollLoop ::
  "(json \<Rightarrow> hit list \<Rightarrow> hit list \<times> error option) \<Rightarrow> (json \<Rightarrow> error + string) \<Rightarrow> string \<Rightarrow>
     (error + (error + blob)) list \<Rightarrow> Batcher \<Rightarrow> (Batcher \<times> error option) option" where
  "scrollLoop decodeHits marshal typeName [] batcher = None"
| "scrollLoop decodeHits marshal typeName (got # rest) batcher =
     (case Next decodeHits got of
        (hits, err) \<Rightarrow>
          if length hits \<noteq> 0 \<and> err = None then
            (case putHits marshal typeName hits batcher of
               (batcher1, Some e) \<Rightarrow> Some (batcher1, Some e)
             | (batcher1, None) \<Rightarrow> scrollLoop decodeHits marshal typeName rest batcher1)
          else Some (batcher, None))"

text \<open>
  \<^verbatim>\<open>
  func (this *EsConn) readBulk(typeName string, window, bulkSize int, dest chan<- []Bulk) {
      log.Printf("Exporting type: `%s`", typeName)
      scroll, err := this.NewScroll(typeName, window)
      if err != nil {
          panic(err)
      }
      batcher := Batcher{size: bulkSize, dest: dest}
      defer batcher.Flush()
      for ... (the loop above)
  }\<close>
  \<open>es\<close> is the source: what it answers to a scroll of a type with a window. The result is
  the channel (the batches sent on it) and the panic, if any. The deferred \<open>Flush\<close> runs
  when the function returns and when it panics after the \<^verbatim>\<open>defer\<close> statement.
\<close>

definition readBulk ::
  "(json \<Rightarrow> hit list \<Rightarrow> hit list \<times> error option) \<Rightarrow> (json \<Rightarrow> error + string) \<Rightarrow>
     (string \<Rightarrow> int \<Rightarrow> scroll_server) \<Rightarrow> string \<Rightarrow> int \<Rightarrow> int \<Rightarrow> Bulk list list \<Rightarrow>
     (Bulk list list \<times> error option) option" where
  "readBulk decodeHits marshal es typeName window bulkSize dest0 =
     (case opened (es typeName window) of
        Some e \<Rightarrow> Some (dest0, Some e)
      | None \<Rightarrow>
          (case scrollLoop decodeHits marshal typeName (replies (es typeName window))
                  (newBatcher bulkSize dest0) of
             None \<Rightarrow> None
           | Some (batcher, panic) \<Rightarrow> Some (dest (Flush batcher), panic)))"

text \<open>
  \<^verbatim>\<open>
  func (this *EsConn) StreamTo(window, bulkSize int, dest chan []Bulk) {
      defer close(dest)
      for _, t := range this.types {
          this.readBulk(t, window, bulkSize, dest)
      }
      return
  }\<close>
  \<open>streamTypes\<close> is the loop; a panic in \<open>readBulk\<close> ends it. The deferred \<^verbatim>\<open>close\<close>
  runs in both cases.
\<close>

record chan =
  sent :: "Bulk list list"
  closed :: bool

fun streamTypes ::
  "(json \<Rightarrow> hit list \<Rightarrow> hit list \<times> error option) \<Rightarrow> (json \<Rightarrow> error + string) \<Rightarrow>
     (string \<Rightarrow> int \<Rightarrow> scroll_server) \<Rightarrow> string list \<Rightarrow> int \<Rightarrow> int \<Rightarrow> Bulk list list \<Rightarrow>
     (Bulk list list \<times> error option) option" where
  "streamTypes decodeHits marshal es [] window bulkSize dest0 = Some (dest0, None)"
| "streamTypes decodeHits marshal es (t # ts) window bulkSize dest0 =
     (case readBulk decodeHits marshal es t window bulkSize dest0 of
        None \<Rightarrow> None
      | Some (dest1, Some e) \<Rightarrow> Some (dest1, Some e)
      | Some (dest1, None) \<Rightarrow> streamTypes decodeHits marshal es ts window bulkSize dest1)"

definition StreamTo ::
  "(json \<Rightarrow> hit list \<Rightarrow> hit list \<times> error option) \<Rightarrow> (json \<Rightarrow> error + string) \<Rightarrow>
     (string \<Rightarrow> int \<Rightarrow> scroll_server) \<Rightarrow> string list \<Rightarrow> int \<Rightarrow> int \<Rightarrow> Bulk list list \<Rightarrow>
     (chan \<times> error option) option" where
  "StreamTo decodeHits marshal es types window bulkSize dest0 =
     (case streamTypes decodeHits marshal es types window bulkSize dest0 of
        None \<Rightarrow> None
      | Some (dest1, panic) \<Rightarrow> Some (\<lparr>sent = dest1, closed = True\<rparr>, panic))"

text \<open>
  The Extractor as the spec words it (section 4.3): one Batcher shared by all
  collections, not flushed when a collection's cursor is exhausted, flushed once after the
  last collection; then the channel is closed. Only used to compare with \<open>StreamTo\<close>.
\<close>

fun spec_drainCollections ::
  "(json \<Rightarrow> hit list \<Rightarrow> hit list \<times> error option) \<Rightarrow> (json \<Rightarrow> error + string) \<Rightarrow>
     (string \<Rightarrow> int \<Rightarrow> scroll_server) \<Rightarrow> string list \<Rightarrow> int \<Rightarrow> Batcher \<Rightarrow>
     (Batcher \<times> error option) option" where
  "spec_drainCollections decodeHits marshal es [] window batcher = Some (batcher, None)"
| "spec_drainCollections decodeHits marshal es (t # ts) window batcher =
     (case opened (es t window) of
        Some e \<Rightarrow> Some (batcher, Some e)
      | None \<Rightarrow>
          (case scrollLoop decodeHits marshal t (replies (es t window)) batcher of
             None \<Rightarrow> None
           | Some (batcher1, Some e) \<Rightarrow> Some (batcher1, Some e)
           | Some (batcher1, None) \<Rightarrow> spec_drainCollections decodeHits marshal es ts window batcher1))"

definition spec_StreamTo ::
  "(json \<Rightarrow> hit list \<Rightarrow> hit list \<times> error option) \<Rightarrow> (json \<Rightarrow> error + string) \<Rightarrow>
     (string \<Rightarrow> int \<Rightarrow> scroll_server) \<Rightarrow> string list \<Rightarrow> int \<Rightarrow> int \<Rightarrow> Bulk list list \<Rightarrow>
     (chan \<times> error option) option" where
  "spec_StreamTo decodeHits marshal es types window bulkSize dest0 =
     (case spec_drainCollections decodeHits marshal es types window (newBatcher bulkSize dest0) of
        None \<Rightarrow> None
      | Some (batcher, panic) \<Rightarrow> Some (\<lparr>sent = dest (Flush batcher), closed = True\<rparr>, panic))"

text \<open>
  An example source for the scroll theorems: two collections, \<open>a\<close> with one document
  and \<open>b\<close> with one document; each scroll answers one page and then the empty page. The
  decoder and the marshaller of the example read a page as an array of hits and write a
  document as \<open>{}\<close>.
\<close>

definition exampleDecodeHits :: "json \<Rightarrow> hit list \<Rightarrow> hit list \<times> error option" where
  "exampleDecodeHits j v =
     (case j of
        JArray xs \<Rightarrow> (map (\<lambda>x. case x of JObject ms \<Rightarrow> ms | _ \<Rightarrow> []) xs, None)
      | _ \<Rightarrow> (v, Some UnmarshalTypeError))"

definition exampleMarshal :: "json \<Rightarrow> error + string" where
  "exampleMarshal j = Inr ''{}''"

definition exampleSource :: "string \<Rightarrow> int \<Rightarrow> scroll_server" where
  "exampleSource typeName window =
     \<lparr>opened = None,
      replies =
        [Inr (Inr (Json (JArray [JObject [(''_id'', JString (typeName @ ''1'')), (''_source'', JObject [])]]))),
         Inr (Inr (Json (JArray [])))]\<rparr>"

section \<open>The Ingestor: \<open>AcceptFrom\<close>\<close>

text \<open>
  \<^verbatim>\<open>
  func (this *EsConn) AcceptFrom(parallel int, src chan []Bulk) (err error) {
      var group sync.WaitGroup
      group.Add(parallel)
      for i := 0; i < parallel; i++ {
          go func() {
              var leftover []Bulk
              for batch := range src {
                  batch = append(batch, leftover...)
                  leftover, err = this.Bulk(batch)
                  if err != nil {
                      panic(err)
                  }
                  log.Printf("Imported %d/%d", len(batch)-len(leftover), len(batch))
              }
              for len(leftover) > 0 {
                  log.Printf("Pushing in last %d", len(leftover))
                  leftover, err = this.Bulk(leftover)
                  if err != nil {
                      panic(err)
                  }
              }
              group.Done()
          }()
      }
      group.Wait()
      return
  }\<close>
  The goroutines run interleaved. Each has a variable \<open>leftover\<close> of its own; the
  variable \<open>err\<close> is the named result of \<open>AcceptFrom\<close>, which the closures capture: all
  goroutines assign to it. A goroutine tests the error of a call right after the call has
  returned it: the assignment \<^verbatim>\<open>leftover, err = this.Bulk(..)\<close> and the test
  \<^verbatim>\<open>if err != nil\<close> that follows it are one step, and the error tested is the one the
  goroutine's own call returned. The model is a step function on the state below; a
  schedule (a list of events) says which goroutine moves next, and what the producer and
  the destination do.

  The places of a goroutine between two of its steps:
  \<^item> \<open>Receiving\<close>: at \<^verbatim>\<open>for batch := range src\<close>;
  \<^item> \<open>Submitting ops\<close>: a batch was received and the leftover appended, before
    \<^verbatim>\<open>leftover, err = this.Bulk(batch)\<close>;
  \<^item> \<open>Draining\<close>: at \<^verbatim>\<open>for len(leftover) > 0\<close>;
  \<^item> \<open>Resubmitting\<close>: before \<^verbatim>\<open>leftover, err = this.Bulk(leftover)\<close>;
  \<^item> \<open>Finished\<close>: after \<^verbatim>\<open>group.Done()\<close>.
\<close>

datatype pc =
    Receiving
  | Submitting "Bulk list"
  | Draining
  | Resubmitting
  | Finished

record worker =
  at :: pc
  leftover :: "Bulk list"

text \<open>
  The state: the goroutines; the shared \<open>err\<close>; the channel \<open>src\<close> (the batches in it,
  oldest first, and whether it is closed); the panic that ended the process, if any; the
  lines logged; and, for the statements about the run, the calls of \<open>Bulk\<close> made so far
  (goroutine, records submitted, what the destination answered) and the records received
  from the channel so far.
\<close>

record ingest =
  workers :: "worker list"
  err :: "error option"
  src :: "Bulk list list"
  srcClosed :: bool
  panicked :: "error option"
  logged :: "log_entry list"
  calls :: "(nat \<times> Bulk list \<times> (error + blob)) list"
  pulled :: "Bulk list"

text \<open>
  The events of a schedule: the producer sends a batch; the producer closes the channel;
  goroutine \<open>i\<close> takes its next step, and if that step is a call of \<open>Bulk\<close> the destination
  answers \<open>reply\<close> (the outcome of \<^verbatim>\<open>readRequest\<close>).
\<close>

datatype event =
    Send "Bulk list"
  | Close
  | Step nat "error + blob"

text \<open>The assignment \<^verbatim>\<open>leftover, err = this.Bulk(ops)\<close> of goroutine \<open>i\<close>.\<close>

definition callBulk ::
  "(json \<Rightarrow> RespObj \<Rightarrow> RespObj \<times> error option) \<Rightarrow> nat \<Rightarrow> (error + blob) \<Rightarrow> Bulk list \<Rightarrow>
     ingest \<Rightarrow> ingest" where
  "callBulk decodeResp i reply ops s =
     (case EsConn_Bulk decodeResp (\<lambda>body. reply) ops of
        ((ret, e), lg) \<Rightarrow>
          s\<lparr>workers := (workers s)[i := (workers s ! i)\<lparr>leftover := ret\<rparr>],
            err := e,
            logged := logged s @ lg,
            calls := calls s @ [(i, ops, reply)]\<rparr>)"

text \<open>
  One step of goroutine \<open>i\<close>. After a panic the process is gone and nothing moves. A
  goroutine that waits on the empty, open channel does not move either.
\<close>

definition workerStep ::
  "(json \<Rightarrow> RespObj \<Rightarrow> RespObj \<times> error option) \<Rightarrow> nat \<Rightarrow> (error + blob) \<Rightarrow> ingest \<Rightarrow> ingest" where
  "workerStep decodeResp i reply s =
     (if panicked s \<noteq> None \<or> \<not> i < length (workers s) then s
      else
        let w = workers s ! i in
        case at w of
          Receiving \<Rightarrow>
            (case src s of
               received # q \<Rightarrow>
                 s\<lparr>workers := (workers s)[i := w\<lparr>at := Submitting (received @ leftover w)\<rparr>],
                   src := q,
                   pulled := pulled s @ received\<rparr>
             | [] \<Rightarrow>
                 if srcClosed s then s\<lparr>workers := (workers s)[i := w\<lparr>at := Draining\<rparr>]\<rparr> else s)
        | Submitting ops \<Rightarrow>
            let s1 = callBulk decodeResp i reply ops s in
            (case err s1 of
               Some e \<Rightarrow> s1\<lparr>panicked := Some e\<rparr>
             | None \<Rightarrow>
                 s1\<lparr>workers := (workers s1)[i := (workers s1 ! i)\<lparr>at := Receiving\<rparr>],
                    logged := logged s1 @
                      [LogImported (int (length ops) - int (length (leftover (workers s1 ! i))))
                         (int (length ops))]\<rparr>)
        | Draining \<Rightarrow>
            if length (leftover w) > 0 then
              s\<lparr>workers := (workers s)[i := w\<lparr>at := Resubmitting\<rparr>],
                logged := logged s @ [LogPushing (int (length (leftover w)))]\<rparr>
            else s\<lparr>workers := (workers s)[i := w\<lparr>at := Finished\<rparr>]\<rparr>
        | Resubmitting \<Rightarrow>
            let s1 = callBulk decodeResp i reply (leftover w) s in
            (case err s1 of
               Some e \<Rightarrow> s1\<lparr>panicked := Some e\<rparr>
             | None \<Rightarrow> s1\<lparr>workers := (workers s1)[i := (workers s1 ! i)\<lparr>at := Draining\<rparr>]\<rparr>)
        | Finished \<Rightarrow> s)"

text \<open>
  One event. The producer sends only on the open channel and closes it once
  (\<open>StreamTo\<close> closes it when it returns); the capacity of the channel is not modelled.
\<close>

definition step :: "(json \<Rightarrow> RespObj \<Rightarrow> RespObj \<times> error option) \<Rightarrow> ingest \<Rightarrow> event \<Rightarrow> ingest" where
  "step decodeResp s ev =
     (case ev of
        Send produced \<Rightarrow>
          if panicked s \<noteq> None \<or> srcClosed s then s else s\<lparr>src := src s @ [produced]\<rparr>
      | Close \<Rightarrow> if panicked s \<noteq> None then s else s\<lparr>srcClosed := True\<rparr>
      | Step i reply \<Rightarrow> workerStep decodeResp i reply s)"

text \<open>
  The state when the goroutines have been started: \<^verbatim>\<open>group.Add(parallel)\<close> panics for a
  negative \<open>parallel\<close>.
\<close>

definition startIngest :: "int \<Rightarrow> ingest" where
  "startIngest parallel =
     \<lparr>workers = replicate (nat parallel) \<lparr>at = Receiving, leftover = []\<rparr>,
      err = None, src = [], srcClosed = False,
      panicked = (if parallel < 0 then Some NegativeWaitGroup else None),
      logged = [], calls = [], pulled = []\<rparr>"

text \<open>\<open>AcceptFrom\<close> under a schedule: the state after its events.\<close>

definition AcceptFrom ::
  "(json \<Rightarrow> RespObj \<Rightarrow> RespObj \<times> error option) \<Rightarrow> int \<Rightarrow> event list \<Rightarrow> ingest" where
  "AcceptFrom decodeResp parallel events = foldl (step decodeResp) (startIngest parallel) events"

text \<open>
  What the caller of \<open>AcceptFrom\<close> sees in a state: the process has panicked; or all
  goroutines are done, \<^verbatim>\<open>group.Wait()\<close> returns and \<open>AcceptFrom\<close> returns \<open>err\<close>; or
  \<open>AcceptFrom\<close> is still waiting.
\<close>

datatype outcome = Panicked error | Returned "error option" | Waiting

definition outcome :: "ingest \<Rightarrow> outcome" where
  "outcome s =
     (case panicked s of
        Some e \<Rightarrow> Panicked e
      | None \<Rightarrow> if list_all (\<lambda>w. at w = Finished) (workers s) then Returned (err s) else Waiting)"



section \<open>Auxiliary notions for the proofs, and the examples\<close>



text \<open>Example metadata: one index with a setting the struct does not declare; two indices.\<close>

definition exampleMeta :: json where
  "exampleMeta = JObject [(''idx'', JObject [
      (''aliases'', JObject [(''al'', JObject [])]),
      (''mappings'', JObject [(''doc'', JObject [])]),
      (''settings'', JObject [(''index'', JObject [
          (''number_of_shards'', JString ''5''),
          (''number_of_replicas'', JString ''1''),
          (''creation_date'', JString ''1400000000'')])])])]"

definition twoIndexMeta :: json where
  "twoIndexMeta = JObject [
      (''one'', JObject [(''mappings'', JObject [(''doc'', JObject [])])]),
      (''two'', JObject [(''mappings'', JObject [(''user'', JObject [])])])]"


text \<open>
  For the scroll proofs: the Batcher with batches \<open>d\<close> sent before its own, and the
  Batcher all of whose records, buffered and sent, have the type \<open>t\<close>.
\<close>

definition shiftDest :: "Bulk list list \<Rightarrow> Batcher \<Rightarrow> Batcher" where
  "shiftDest d b = b\<lparr>dest := d @ dest b\<rparr>"

definition oneType :: "string \<Rightarrow> Batcher \<Rightarrow> bool" where
  "oneType t b \<longleftrightarrow>
     (\<forall>r\<in>set (batch b). Type r = t) \<and>
     (\<forall>x\<in>set (dest b). x \<noteq> [] \<and> (\<forall>r\<in>set x. Type r = t))"

text \<open>
  The records of a collection, in the order in which \<open>readBulk\<close> hands them to its
  Batcher. \<open>hitRecords\<close>: the records the loop over the hits of one page puts, up to the
  hit at which it panics, if any (\<^verbatim>\<open>json.Marshal\<close> fails, or \<^verbatim>\<open>h["_id"]\<close> is no string).
  \<open>collectionRecords\<close>: the records of the pages the source answers to
  \<^verbatim>\<open>scroll.Next()\<close>, one page after the other, up to the first page that is empty or comes
  with an error, or up to the panic; \<open>None\<close> when the replies given run out before.
\<close>

fun hitRecords :: "(json \<Rightarrow> error + string) \<Rightarrow> string \<Rightarrow> hit list \<Rightarrow> Bulk list \<times> error option" where
  "hitRecords marshal typeName [] = ([], None)"
| "hitRecords marshal typeName (h # hits) =
     (case marshal (hitField h ''_source'') of
        Inl e \<Rightarrow> ([], Some e)
      | Inr bytes \<Rightarrow>
          (case hitField h ''_id'' of
             JString s \<Rightarrow>
               (case hitRecords marshal typeName hits of
                  (recs, p) \<Rightarrow> (\<lparr>Id = s, Type = typeName, Doc = bytes\<rparr> # recs, p))
           | _ \<Rightarrow> ([], Some TypeAssertion)))"

fun collectionRecords ::
  "(json \<Rightarrow> hit list \<Rightarrow> hit list \<times> error option) \<Rightarrow> (json \<Rightarrow> error + string) \<Rightarrow> string \<Rightarrow>
     (error + (error + blob)) list \<Rightarrow> (Bulk list \<times> error option) option" where
  "collectionRecords decodeHits marshal typeName [] = None"
| "collectionRecords decodeHits marshal typeName (got # rest) =
     (case Next decodeHits got of
        (hits, errNext) \<Rightarrow>
          if length hits \<noteq> 0 \<and> errNext = None then
            (case hitRecords marshal typeName hits of
               (recs, Some e) \<Rightarrow> Some (recs, Some e)
             | (recs, None) \<Rightarrow>
                 map_option (\<lambda>(more, p). (recs @ more, p))
                   (collectionRecords decodeHits marshal typeName rest))
          else Some ([], None))"









text \<open>
  The examples: three responses of a destination to the submission of the record with
  the \<open>_id\<close> \<open>1\<close>, and what \<^verbatim>\<open>json.Unmarshal\<close> makes of each in \<open>respObj\<close>; no other response
  occurs in the examples, and \<open>exampleDecodeResp\<close> takes any other not to decode.
  \<^item> \<^verbatim>\<open>{"errors":false,"items":[{"create":{"_id":"1","status":201}}]}\<close>: created;
  \<^item> \<^verbatim>\<open>{"errors":true,"items":[{"create":{"_id":"1","status":429}}]}\<close>: rejected for
    overload;
  \<^item> \<^verbatim>\<open>{}\<close>: neither flag nor items, \<open>respObj\<close> stays as declared.
\<close>

definition createdResponse :: json where
  "createdResponse = JObject [(''errors'', JBool False),
     (''items'', JArray [JObject [(''create'',
        JObject [(''_id'', JString ''1''), (''status'', JNumber ''201'')])]])]"

definition overloadResponse :: json where
  "overloadResponse = JObject [(''errors'', JBool True),
     (''items'', JArray [JObject [(''create'',
        JObject [(''_id'', JString ''1''), (''status'', JNumber ''429'')])]])]"

definition exampleDecodeResp :: "json \<Rightarrow> RespObj \<Rightarrow> RespObj \<times> error option" where
  "exampleDecodeResp j v =
     (if j = createdResponse then
        (\<lparr>Errors = False, Items = [\<lparr>Create_Id = ''1'', Create_Status = 201\<rparr>]\<rparr>, None)
      else if j = overloadResponse then
        (\<lparr>Errors = True, Items = [\<lparr>Create_Id = ''1'', Create_Status = 429\<rparr>]\<rparr>, None)
      else if j = JObject [] then (v, None)
      else (v, Some UnmarshalTypeError))"

text \<open>
  Schedules of one goroutine and one batch of one record, sent before the channel is
  closed. An event \<open>Step 0 reply\<close> at which the goroutine makes no call carries a reply
  that is not looked at.
  \<^item> \<open>singleBatchSchedule\<close>: the record is created at the first submission;
  \<^item> \<open>retrySchedule\<close>: the first submission is rejected for overload, the channel is found
    closed, the leftover is submitted again and the record is created;
  \<^item> \<open>failedCallSchedule\<close>: the first submission fails with a transport error;
  \<^item> \<open>failedRetrySchedule\<close>: the first submission is rejected for overload and the
    submission of the leftover fails with a transport error;
  \<^item> \<open>unansweredSchedule\<close>: the destination answers the submission with \<^verbatim>\<open>{}\<close>.
\<close>

definition singleBatchSchedule :: "event list" where
  "singleBatchSchedule =
     [Send [\<lparr>Id = ''1'', Type = ''t'', Doc = ''{}''\<rparr>],
      Close,
      Step 0 (Inr (Json JNull)),
      Step 0 (Inr (Json createdResponse)),
      Step 0 (Inr (Json JNull)),
      Step 0 (Inr (Json JNull))]"


definition failedCallSchedule :: "event list" where
  "failedCallSchedule =
     [Send [\<lparr>Id = ''1'', Type = ''t'', Doc = ''{}''\<rparr>],
      Close,
      Step 0 (Inr (Json JNull)),
      Step 0 (Inl (TransportError ''connection reset''))]"

definition failedRetrySchedule :: "event list" where
  "failedRetrySchedule =
     [Send [\<lparr>Id = ''1'', Type = ''t'', Doc = ''{}''\<rparr>],
      Close,
      Step 0 (Inr (Json JNull)),
      Step 0 (Inr (Json overloadResponse)),
      Step 0 (Inr (Json JNull)),
      Step 0 (Inr (Json JNull)),
      Step 0 (Inl (TransportError ''connection reset''))]"


section \<open>The Batcher emits full batches, then one remainder\<close>

lemma puts_Nil: "puts this [] = this"
  by (simp add: puts_def)

lemma puts_snoc: "puts this (rs @ [r]) = Put (puts this rs) r"
  by (simp add: puts_def)

lemma sizeB_Flush: "sizeB (Flush this) = sizeB this"
  by (simp add: Flush_def)

lemma sizeB_Put: "sizeB (Put this b) = sizeB this"
  by (simp add: Put_def Let_def sizeB_Flush)

lemma sizeB_puts: "sizeB (puts this rs) = sizeB this"
  by (induction rs rule: rev_induct) (simp_all add: puts_Nil puts_snoc sizeB_Put)

lemma batcher_inv_Put:
  assumes "batcher_inv n rs this"
  shows "batcher_inv n (rs @ [r]) (Put this r)"
  using assms
  by (auto simp: batcher_inv_def Put_def Flush_def Let_def)

lemma batcher_inv_puts:
  assumes "1 \<le> n"
  shows "batcher_inv n rs (puts (newBatcher n []) rs)"
proof (induction rs rule: rev_induct)
  case Nil
  from assms show ?case
    by (simp add: puts_Nil batcher_inv_def newBatcher_def)
next
  case (snoc r rs)
  then show ?case
    by (simp add: puts_snoc batcher_inv_Put)
qed

text \<open>
  Claim C4. For a capacity \<open>n \<ge> 1\<close> and any sequence \<open>rs\<close> of records put into a fresh
  Batcher and followed by one \<open>Flush\<close>: every batch sent from within \<open>Put\<close> has exactly
  \<open>n\<close> records; \<open>Flush\<close> sends the remaining buffer as one batch, shorter than \<open>n\<close>, when
  the buffer is not empty, and sends nothing when it is empty; no batch sent has more than
  \<open>n\<close> records. (In addition the batches, concatenated, are the records put, in order, and
  the buffer is empty afterwards.)
\<close>

theorem Batcher_batches:
  assumes "1 \<le> n"
  shows "list_all (\<lambda>x. int (length x) = n) (dest (puts (newBatcher n []) rs))
       \<and> int (length (batch (puts (newBatcher n []) rs))) < n
       \<and> dest (Flush (puts (newBatcher n []) rs)) =
           dest (puts (newBatcher n []) rs) @
             (if batch (puts (newBatcher n []) rs) = [] then []
              else [batch (puts (newBatcher n []) rs)])
       \<and> list_all (\<lambda>x. int (length x) \<le> n) (dest (Flush (puts (newBatcher n []) rs)))
       \<and> concat (dest (Flush (puts (newBatcher n []) rs))) = rs
       \<and> batch (Flush (puts (newBatcher n []) rs)) = []"
proof -
  let ?b = "puts (newBatcher n []) rs"
  have inv: "batcher_inv n rs ?b"
    using assms by (rule batcher_inv_puts)
  have full: "list_all (\<lambda>x. int (length x) = n) (dest ?b)"
    and small: "int (length (batch ?b)) < n"
    and all: "concat (dest ?b) @ batch ?b = rs"
    using inv by (simp_all add: batcher_inv_def)
  have fl: "dest (Flush ?b) = dest ?b @ (if batch ?b = [] then [] else [batch ?b])"
    by (simp add: Flush_def)
  have le: "list_all (\<lambda>x. int (length x) \<le> n) (dest ?b)"
    using full by (simp add: list_all_iff)
  have le': "list_all (\<lambda>x. int (length x) \<le> n) (dest (Flush ?b))"
    using le small by (simp add: fl)
  have cc: "concat (dest (Flush ?b)) = rs"
    using all by (auto simp: fl)
  have em: "batch (Flush ?b) = []"
    by (simp add: Flush_def)
  from full small fl le' cc em show ?thesis by blast
qed

theorem Batcher_batches_witness:
  "dest (Flush (puts (newBatcher 2 [])
      [\<lparr>Id = ''a'', Type = ''t'', Doc = ''{}''\<rparr>,
       \<lparr>Id = ''b'', Type = ''t'', Doc = ''{}''\<rparr>,
       \<lparr>Id = ''c'', Type = ''t'', Doc = ''{}''\<rparr>])) =
     [[\<lparr>Id = ''a'', Type = ''t'', Doc = ''{}''\<rparr>,
       \<lparr>Id = ''b'', Type = ''t'', Doc = ''{}''\<rparr>],
      [\<lparr>Id = ''c'', Type = ''t'', Doc = ''{}''\<rparr>]]
   \<and> concat (dest (Flush (puts (newBatcher 2 [])
      [\<lparr>Id = ''a'', Type = ''t'', Doc = ''{}''\<rparr>,
       \<lparr>Id = ''b'', Type = ''t'', Doc = ''{}''\<rparr>,
       \<lparr>Id = ''c'', Type = ''t'', Doc = ''{}''\<rparr>]))) =
      [\<lparr>Id = ''a'', Type = ''t'', Doc = ''{}''\<rparr>,
       \<lparr>Id = ''b'', Type = ''t'', Doc = ''{}''\<rparr>,
       \<lparr>Id = ''c'', Type = ''t'', Doc = ''{}''\<rparr>]"
proof -
  have h: "(1::int) \<le> 2" by simp
  show ?thesis
    using Batcher_batches [OF h,
      of "[\<lparr>Id = ''a'', Type = ''t'', Doc = ''{}''\<rparr>,
           \<lparr>Id = ''b'', Type = ''t'', Doc = ''{}''\<rparr>,
           \<lparr>Id = ''c'', Type = ''t'', Doc = ''{}''\<rparr>]"]
    by (simp add: puts_def Put_def Flush_def newBatcher_def Let_def)
qed

section \<open>Which records \<open>Bulk\<close> hands back\<close>




lemma filter_no_fails:
  assumes "\<not> 0 < length fails"
  shows "filter (\<lambda>op. map_of fails (Id op) \<noteq> None) ops = []"
  using assms by simp







section \<open>Metadata: decoding what was encoded\<close>
















section \<open>Metadata: the index name and the overrides\<close>

lemma foldl_last: "foldl (\<lambda>n k. k) d ks = (if ks = [] then d else last ks)"
  by (induction ks rule: rev_induct) simp_all



lemma lastRanged_mem: "ks \<noteq> [] \<Longrightarrow> lastRanged d ks \<in> set ks"
  by (simp add: lastRanged_def foldl_last)


lemma overrideSettings_shards:
  "NumShards (Index (Settings (overrideSettings m repls shards))) =
     (if repls \<ge> 0 then Itoa shards else NumShards (Index (Settings m)))"
  by (simp add: overrideSettings_def)

lemma overrideSettings_repls:
  "NumRepls (Index (Settings (overrideSettings m repls shards))) =
     (if repls \<ge> 0 then Itoa repls else NumRepls (Index (Settings m)))"
  by (simp add: overrideSettings_def)

text \<open>
  Claim C6, at the inputs where the code departs from it. The source metadata has five
  shards and one replica. With \<open>repls = -1\<close> and \<open>shards = 3\<close> the metadata written still
  has \<open>number_of_shards = "5"\<close>: the shard override is not applied. With \<open>repls = 0\<close> and
  \<open>shards = -1\<close> the metadata written has \<open>number_of_shards = "-1"\<close>: the negative shard
  override is applied. Both statements of \<open>PutIndex\<close> test \<open>repls\<close>
  (\<open>overrideSettings_shards\<close>).
\<close>

theorem PutIndex_shards_follow_repls:
  "PutIndex (\<lambda>ks. ks) (\<lambda>body. None) [] (Json exampleMeta) (- 1) 3 =
     ([''doc''],
      Some (Json (JObject
        [(''aliases'', JObject []),
         (''mappings'', JObject [(''doc'', JObject [])]),
         (''settings'', JObject [(''index'', JObject
            [(''cache'', JNull), (''number_of_shards'', JString ''5''),
             (''number_of_replicas'', JString ''1''), (''refresh_interval'', JNull),
             (''similarity'', JNull), (''analysis'', JNull), (''translog'', JNull),
             (''uuid'', JNull), (''version'', JNull)])]),
         (''warmers'', JNull)])),
      None)
   \<and> PutIndex (\<lambda>ks. ks) (\<lambda>body. None) [] (Json exampleMeta) 0 (- 1) =
     ([''doc''],
      Some (Json (JObject
        [(''aliases'', JObject []),
         (''mappings'', JObject [(''doc'', JObject [])]),
         (''settings'', JObject [(''index'', JObject
            [(''cache'', JNull), (''number_of_shards'', JString ''-1''),
             (''number_of_replicas'', JString ''0''), (''refresh_interval'', JNull),
             (''similarity'', JNull), (''analysis'', JNull), (''translog'', JNull),
             (''uuid'', JNull), (''version'', JNull)])]),
         (''warmers'', JNull)])),
      None)"
  by code_simp

text \<open>
  Claim C9 as stated fails: for metadata with no top-level key \<open>PutIndex\<close> PUTs the zero
  metadata and returns no error, and for metadata with two keys it PUTs the metadata of one
  of them (here the one visited last) and returns no error.
\<close>

theorem PutIndex_accepts_zero_and_two_keys:
  "PutIndex (\<lambda>ks. ks) (\<lambda>body. None) [] (Json (JObject [])) (- 1) (- 1) =
     ([],
      Some (Json (JObject
        [(''aliases'', JObject []),
         (''mappings'', JNull),
         (''settings'', JObject [(''index'', JObject
            [(''cache'', JNull), (''number_of_shards'', JString []),
             (''number_of_replicas'', JString []), (''refresh_interval'', JNull),
             (''similarity'', JNull), (''analysis'', JNull), (''translog'', JNull),
             (''uuid'', JNull), (''version'', JNull)])]),
         (''warmers'', JNull)])),
      None)
   \<and> PutIndex (\<lambda>ks. ks) (\<lambda>body. None) [] (Json twoIndexMeta) (- 1) (- 1) =
     ([''user''],
      Some (Json (JObject
        [(''aliases'', JObject []),
         (''mappings'', JObject [(''user'', JObject [])]),
         (''settings'', JObject [(''index'', JObject
            [(''cache'', JNull), (''number_of_shards'', JString []),
             (''number_of_replicas'', JString []), (''refresh_interval'', JNull),
             (''similarity'', JNull), (''analysis'', JNull), (''translog'', JNull),
             (''uuid'', JNull), (''version'', JNull)])]),
         (''warmers'', JNull)])),
      None)"
  by code_simp

text \<open>
  Claim C9, amended. \<open>PutIndex\<close> does not look at the number of top-level keys. Whenever
  the metadata decodes, it PUTs the encoding of one entry, with the aliases cleared and
  the overrides applied as \<open>overrideSettings\<close> does, and returns the error of that PUT and
  no other. The entry is the zero \<^verbatim>\<open>Index\<close> (under the name \<open>""\<close>) when there is no key,
  and otherwise that of one of the keys: the one the map iteration visits last.
\<close>

theorem PutIndex_any_key_count:
  assumes dec: "Unmarshal decodeMeta metaString [] = (meta, None)"
    and rng: "set (ranged (map fst meta)) = set (map fst meta)"
  shows "\<exists>name. (if meta = [] then name = [] else name \<in> set (map fst meta)) \<and>
           PutIndex ranged readRequest oldTypes metaString repls shards =
            (ranged (mapKeys (Mappings (lookupIndex meta name))),
             Some (Json (encodeIndex
               (overrideSettings ((lookupIndex meta name)\<lparr>Aliases := Some []\<rparr>) repls shards))),
             readRequest (Json (encodeIndex
               (overrideSettings ((lookupIndex meta name)\<lparr>Aliases := Some []\<rparr>) repls shards))))"
proof -
  let ?name = "lastRanged [] (ranged (map fst meta))"
  have which: "if meta = [] then ?name = [] else ?name \<in> set (map fst meta)"
  proof (cases "meta = []")
    case True
    with rng have "ranged (map fst meta) = []" by simp
    with True show ?thesis by (simp add: lastRanged_def)
  next
    case False
    with rng have "ranged (map fst meta) \<noteq> []" by auto
    from lastRanged_mem [OF this] rng False show ?thesis by simp
  qed
  have put: "PutIndex ranged readRequest oldTypes metaString repls shards =
      (ranged (mapKeys (Mappings (lookupIndex meta ?name))),
       Some (Json (encodeIndex
         (overrideSettings ((lookupIndex meta ?name)\<lparr>Aliases := Some []\<rparr>) repls shards))),
       readRequest (Json (encodeIndex
         (overrideSettings ((lookupIndex meta ?name)\<lparr>Aliases := Some []\<rparr>) repls shards))))"
    by (simp add: PutIndex_def dec Let_def)
  show ?thesis
  proof (intro exI conjI)
    show "if meta = [] then ?name = [] else ?name \<in> set (map fst meta)"
      by (rule which)
    show "PutIndex ranged readRequest oldTypes metaString repls shards =
      (ranged (mapKeys (Mappings (lookupIndex meta ?name))),
       Some (Json (encodeIndex
         (overrideSettings ((lookupIndex meta ?name)\<lparr>Aliases := Some []\<rparr>) repls shards))),
       readRequest (Json (encodeIndex
         (overrideSettings ((lookupIndex meta ?name)\<lparr>Aliases := Some []\<rparr>) repls shards))))"
      by (rule put)
  qed
qed


theorem PutIndex_any_key_count_witness:
  "\<exists>name. name \<in> set [''one'', ''two''] \<and>
     PutIndex rev (\<lambda>body. None) [] (Json twoIndexMeta) (- 1) (- 1) =
       (rev (mapKeys (Mappings (lookupIndex
           [(''one'', zeroIndex\<lparr>Mappings := Some [(''doc'', JObject [])]\<rparr>),
            (''two'', zeroIndex\<lparr>Mappings := Some [(''user'', JObject [])]\<rparr>)] name))),
        Some (Json (encodeIndex (overrideSettings ((lookupIndex
           [(''one'', zeroIndex\<lparr>Mappings := Some [(''doc'', JObject [])]\<rparr>),
            (''two'', zeroIndex\<lparr>Mappings := Some [(''user'', JObject [])]\<rparr>)] name)
             \<lparr>Aliases := Some []\<rparr>) (- 1) (- 1)))),
        None)"
proof -
  have dec: "Unmarshal decodeMeta (Json twoIndexMeta) [] =
      ([(''one'', zeroIndex\<lparr>Mappings := Some [(''doc'', JObject [])]\<rparr>),
        (''two'', zeroIndex\<lparr>Mappings := Some [(''user'', JObject [])]\<rparr>)], None)"
    by code_simp
  have rng: "set (rev (map fst
      [(''one'', zeroIndex\<lparr>Mappings := Some [(''doc'', JObject [])]\<rparr>),
       (''two'', zeroIndex\<lparr>Mappings := Some [(''user'', JObject [])]\<rparr>)])) =
     set (map fst
      [(''one'', zeroIndex\<lparr>Mappings := Some [(''doc'', JObject [])]\<rparr>),
       (''two'', zeroIndex\<lparr>Mappings := Some [(''user'', JObject [])]\<rparr>)])"
    by (simp only: set_rev)
  from PutIndex_any_key_count [where ranged = rev and readRequest = "\<lambda>body. None"
      and oldTypes = "[]" and repls = "- 1" and shards = "- 1", OF dec rng]
  show ?thesis by simp
qed





section \<open>The Extractor: one Batcher for each collection\<close>

lemma Flush_shiftDest: "Flush (shiftDest d b) = shiftDest d (Flush b)"
  by (simp add: Flush_def shiftDest_def)

lemma Put_shiftDest: "Put (shiftDest d b) r = shiftDest d (Put b r)"
  by (simp add: Put_def Let_def Flush_def shiftDest_def)

lemma putHits_shiftDest:
  "putHits marshal t hs (shiftDest d b) =
     (shiftDest d (fst (putHits marshal t hs b)), snd (putHits marshal t hs b))"
  by (induction marshal t hs b rule: putHits.induct)
     (auto simp: Put_shiftDest split: sum.splits json.splits)

lemma scrollLoop_shiftDest:
  "scrollLoop decodeHits marshal t rs (shiftDest d b) =
     map_option (\<lambda>(b1, p). (shiftDest d b1, p)) (scrollLoop decodeHits marshal t rs b)"
proof (induction rs arbitrary: b)
  case Nil
  show ?case by simp
next
  case (Cons got rest)
  obtain hits err where n: "Next decodeHits got = (hits, err)"
    by (cases "Next decodeHits got")
  obtain b1 p where ph: "putHits marshal t hits b = (b1, p)"
    by (cases "putHits marshal t hits b")
  have ph': "putHits marshal t hits (shiftDest d b) = (shiftDest d b1, p)"
    by (simp add: putHits_shiftDest ph)
  show ?case
    by (cases p) (simp_all add: n ph ph' Cons.IH)
qed

lemma newBatcher_shiftDest: "newBatcher n d = shiftDest d (newBatcher n [])"
  by (simp add: newBatcher_def shiftDest_def)

lemma dest_shiftDest: "dest (shiftDest d b) = d @ dest b"
  by (simp add: shiftDest_def)

lemma readBulk_append:
  "readBulk decodeHits marshal es t window bulkSize d =
     map_option (\<lambda>(d1, p). (d @ d1, p)) (readBulk decodeHits marshal es t window bulkSize [])"
proof (cases "opened (es t window)")
  case (Some e)
  then show ?thesis by (simp add: readBulk_def)
next
  case None
  show ?thesis
  proof (cases "scrollLoop decodeHits marshal t (replies (es t window)) (newBatcher bulkSize [])")
    case None
    with \<open>opened (es t window) = None\<close> show ?thesis
      by (simp add: readBulk_def newBatcher_shiftDest [of bulkSize d] scrollLoop_shiftDest)
  next
    case (Some bp)
    obtain b p where bp: "bp = (b, p)" by (cases bp)
    with Some \<open>opened (es t window) = None\<close> show ?thesis
      by (simp add: readBulk_def newBatcher_shiftDest [of bulkSize d] scrollLoop_shiftDest
          Flush_shiftDest dest_shiftDest)
  qed
qed

lemma oneType_Flush: "oneType t b \<Longrightarrow> oneType t (Flush b)"
  by (auto simp: oneType_def Flush_def)

lemma oneType_Put: "oneType t b \<Longrightarrow> Type r = t \<Longrightarrow> oneType t (Put b r)"
  by (auto simp: oneType_def Put_def Flush_def Let_def)

lemma puts_Cons: "puts b (r # recs) = puts (Put b r) recs"
  by (simp add: puts_def)

lemma puts_append: "puts b (xs @ ys) = puts (puts b xs) ys"
  by (simp add: puts_def)

lemma oneType_puts: "oneType t b \<Longrightarrow> \<forall>r\<in>set recs. Type r = t \<Longrightarrow> oneType t (puts b recs)"
proof (induction recs arbitrary: b)
  case Nil
  then show ?case by (simp add: puts_def)
next
  case (Cons r recs)
  from Cons.prems have "oneType t (Put b r)" by (simp add: oneType_Put)
  from Cons.IH [OF this] Cons.prems(2) show ?case by (simp add: puts_def)
qed

lemma concat_Flush: "concat (dest (Flush b)) @ batch (Flush b) = concat (dest b) @ batch b"
  by (simp add: Flush_def)

lemma concat_Put: "concat (dest (Put b r)) @ batch (Put b r) = concat (dest b) @ batch b @ [r]"
  by (simp add: Put_def Let_def Flush_def)

lemma concat_puts: "concat (dest (puts b recs)) @ batch (puts b recs) = concat (dest b) @ batch b @ recs"
proof (induction recs arbitrary: b)
  case Nil
  show ?case by (simp add: puts_def)
next
  case (Cons r recs)
  have "concat (dest (puts (Put b r) recs)) @ batch (puts (Put b r) recs) =
      concat (dest (Put b r)) @ batch (Put b r) @ recs"
    by (rule Cons.IH)
  also have "\<dots> = (concat (dest (Put b r)) @ batch (Put b r)) @ recs" by simp
  also have "\<dots> = (concat (dest b) @ batch b @ [r]) @ recs" by (simp only: concat_Put)
  finally show ?case by (simp add: puts_Cons)
qed

lemma concat_fresh_Batcher: "concat (dest (Flush (puts (newBatcher n []) recs))) = recs"
proof -
  let ?b = "puts (newBatcher n []) recs"
  have "concat (dest (Flush ?b)) @ batch (Flush ?b) = concat (dest ?b) @ batch ?b"
    by (rule concat_Flush)
  also have "\<dots> = concat (dest (newBatcher n [])) @ batch (newBatcher n []) @ recs"
    by (rule concat_puts)
  also have "\<dots> = recs" by (simp add: newBatcher_def)
  finally show ?thesis by (simp add: Flush_def split: if_splits)
qed

lemma putHits_hitRecords:
  "putHits marshal t hs b = (puts b (fst (hitRecords marshal t hs)), snd (hitRecords marshal t hs))"
proof (induction marshal t hs b rule: putHits.induct)
  case (1 marshal typeName batcher)
  show ?case by (simp add: puts_def)
next
  case (2 marshal typeName h hits batcher)
  show ?case
  proof (cases "marshal (hitField h ''_source'')")
    case (Inl e)
    then show ?thesis by (simp add: puts_def)
  next
    case (Inr bytes)
    show ?thesis
    proof (cases "hitField h ''_id''")
      case (JString x)
      obtain recs p where hr: "hitRecords marshal typeName hits = (recs, p)"
        by (cases "hitRecords marshal typeName hits")
      from "2.IH" [OF Inr JString] hr Inr JString show ?thesis
        by (simp add: puts_Cons)
    qed (simp_all add: Inr puts_def)
  qed
qed

lemma hitRecords_Type: "\<forall>r\<in>set (fst (hitRecords marshal t hs)). Type r = t"
proof (induction hs)
  case Nil
  show ?case by simp
next
  case (Cons h hs)
  then show ?case
    by (auto split: sum.splits json.splits prod.splits)
qed

lemma scrollLoop_collectionRecords:
  "scrollLoop decodeHits marshal t rs b =
     map_option (\<lambda>(recs, p). (puts b recs, p)) (collectionRecords decodeHits marshal t rs)"
proof (induction rs arbitrary: b)
  case Nil
  show ?case by simp
next
  case (Cons got rest)
  obtain hits err where n: "Next decodeHits got = (hits, err)"
    by (cases "Next decodeHits got")
  obtain recs q where hr: "hitRecords marshal t hits = (recs, q)"
    by (cases "hitRecords marshal t hits")
  have ph: "putHits marshal t hits b = (puts b recs, q)"
    by (simp add: putHits_hitRecords hr)
  show ?case
  proof (cases "length hits \<noteq> 0 \<and> err = None")
    case False
    with n show ?thesis by (auto simp: puts_def)
  next
    case True
    show ?thesis
    proof (cases q)
      case (Some e)
      with n hr ph True show ?thesis by simp
    next
      case None
      have "scrollLoop decodeHits marshal t rest (puts b recs) =
          map_option (\<lambda>(more, p). (puts (puts b recs) more, p))
            (collectionRecords decodeHits marshal t rest)"
        by (rule Cons.IH)
      with n hr ph True None show ?thesis
        by (cases "collectionRecords decodeHits marshal t rest") (auto simp: puts_append)
    qed
  qed
qed

lemma collectionRecords_Type:
  "collectionRecords decodeHits marshal t rs = Some (recs, p) \<Longrightarrow> \<forall>r\<in>set recs. Type r = t"
proof (induction rs arbitrary: recs p)
  case Nil
  then show ?case by simp
next
  case (Cons got rest)
  obtain hits err where n: "Next decodeHits got = (hits, err)"
    by (cases "Next decodeHits got")
  obtain recs1 q where hr: "hitRecords marshal t hits = (recs1, q)"
    by (cases "hitRecords marshal t hits")
  have ty1: "\<forall>r\<in>set recs1. Type r = t"
    using hitRecords_Type [of marshal t hits] hr by simp
  show ?case
  proof (cases "length hits \<noteq> 0 \<and> err = None")
    case False
    with Cons.prems n show ?thesis by auto
  next
    case True
    show ?thesis
    proof (cases q)
      case (Some e)
      with Cons.prems n hr True have "recs = recs1" by simp
      with ty1 show ?thesis by simp
    next
      case None
      with Cons.prems n hr True obtain more where
        m: "collectionRecords decodeHits marshal t rest = Some (more, p)" and r: "recs = recs1 @ more"
        by (cases "collectionRecords decodeHits marshal t rest") auto
      from Cons.IH [OF m] ty1 r show ?thesis by auto
    qed
  qed
qed

lemma readBulk_collectionRecords:
  assumes "opened (es t window) = None"
    and "collectionRecords decodeHits marshal t (replies (es t window)) = Some (recs, p)"
  shows "readBulk decodeHits marshal es t window bulkSize d =
     Some (dest (Flush (puts (newBatcher bulkSize d) recs)), p)"
  using assms by (simp add: readBulk_def scrollLoop_collectionRecords)

lemma fresh_Batcher_oneType:
  assumes "\<forall>r\<in>set recs. Type r = t"
  shows "\<forall>x\<in>set (dest (Flush (puts (newBatcher bulkSize []) recs))). x \<noteq> [] \<and> (\<forall>r\<in>set x. Type r = t)"
proof -
  have "oneType t (newBatcher bulkSize [])"
    by (simp add: oneType_def newBatcher_def)
  then have "oneType t (Flush (puts (newBatcher bulkSize []) recs))"
    using assms by (simp add: oneType_puts oneType_Flush)
  then show ?thesis by (simp add: oneType_def)
qed

lemma streamTypes_concat:
  assumes "\<And>t. t \<in> set ts \<Longrightarrow>
      readBulk decodeHits marshal es t window bulkSize [] = Some (emitted t, None)"
  shows "streamTypes decodeHits marshal es ts window bulkSize d =
      Some (d @ concat (map emitted ts), None)"
  using assms
proof (induction ts arbitrary: d)
  case Nil
  show ?case by simp
next
  case (Cons t ts)
  have "readBulk decodeHits marshal es t window bulkSize [] = Some (emitted t, None)"
    using Cons.prems by simp
  then have rb: "readBulk decodeHits marshal es t window bulkSize d = Some (d @ emitted t, None)"
    using readBulk_append [of decodeHits marshal es t window bulkSize d] by simp
  have "streamTypes decodeHits marshal es ts window bulkSize (d @ emitted t) =
      Some ((d @ emitted t) @ concat (map emitted ts), None)"
    using Cons.prems by (intro Cons.IH) simp
  with rb show ?case by simp
qed

text \<open>
  Claim C3, amended. \<open>StreamTo\<close> runs \<open>readBulk\<close> for each collection in turn, and each
  \<open>readBulk\<close> has a Batcher of its own, flushed when that collection's cursor is exhausted
  (once for every collection, not once at the end). So, when every scroll opens and every
  collection is read without a panic, \<open>recs t\<close> being the records of the pages the source
  answers for collection \<open>t\<close>: the batches sent are, for the first collection, then for the
  second, and so on, what a fresh Batcher sends when it is put the records of that
  collection and flushed once; the channel is closed after the last; the batches of a
  collection, concatenated, are its records; and every batch is non-empty and holds records
  of one collection only.
\<close>

theorem StreamTo_batches_per_collection:
  assumes "\<And>t. t \<in> set types \<Longrightarrow>
      opened (es t window) = None \<and>
      collectionRecords decodeHits marshal t (replies (es t window)) = Some (recs t, None)"
  shows "StreamTo decodeHits marshal es types window bulkSize [] =
           Some (\<lparr>sent = concat (map (\<lambda>t. dest (Flush (puts (newBatcher bulkSize []) (recs t)))) types),
                   closed = True\<rparr>, None)
       \<and> (\<forall>t\<in>set types. concat (dest (Flush (puts (newBatcher bulkSize []) (recs t)))) = recs t)
       \<and> (\<forall>t\<in>set types. \<forall>x\<in>set (dest (Flush (puts (newBatcher bulkSize []) (recs t)))).
             x \<noteq> [] \<and> (\<forall>r\<in>set x. Type r = t))"
proof -
  let ?emitted = "\<lambda>t. dest (Flush (puts (newBatcher bulkSize []) (recs t)))"
  have rb: "readBulk decodeHits marshal es t window bulkSize [] = Some (?emitted t, None)"
    if "t \<in> set types" for t
    using assms [OF that] by (simp add: readBulk_collectionRecords)
  have all: "StreamTo decodeHits marshal es types window bulkSize [] =
      Some (\<lparr>sent = concat (map ?emitted types), closed = True\<rparr>, None)"
    using streamTypes_concat [of types decodeHits marshal es window bulkSize ?emitted "[]"] rb
    by (simp add: StreamTo_def)
  have cc: "\<forall>t\<in>set types. concat (?emitted t) = recs t"
    by (simp add: concat_fresh_Batcher)
  have one: "\<forall>t\<in>set types. \<forall>x\<in>set (?emitted t). x \<noteq> [] \<and> (\<forall>r\<in>set x. Type r = t)"
  proof
    fix t assume "t \<in> set types"
    from assms [OF this] have "\<forall>r\<in>set (recs t). Type r = t"
      using collectionRecords_Type by blast
    then show "\<forall>x\<in>set (?emitted t). x \<noteq> [] \<and> (\<forall>r\<in>set x. Type r = t)"
      by (rule fresh_Batcher_oneType)
  qed
  from all cc one show ?thesis by (intro conjI)
qed

theorem StreamTo_batches_per_collection_witness:
  "StreamTo exampleDecodeHits exampleMarshal exampleSource [''a'', ''b''] 100 2 [] =
     Some (\<lparr>sent = [[\<lparr>Id = ''a1'', Type = ''a'', Doc = ''{}''\<rparr>],
                    [\<lparr>Id = ''b1'', Type = ''b'', Doc = ''{}''\<rparr>]],
             closed = True\<rparr>, None)
   \<and> collectionRecords exampleDecodeHits exampleMarshal ''a'' (replies (exampleSource ''a'' 100)) =
     Some ([\<lparr>Id = ''a1'', Type = ''a'', Doc = ''{}''\<rparr>], None)
   \<and> collectionRecords exampleDecodeHits exampleMarshal ''b'' (replies (exampleSource ''b'' 100)) =
     Some ([\<lparr>Id = ''b1'', Type = ''b'', Doc = ''{}''\<rparr>], None)"
proof -
  have a: "opened (exampleSource ''a'' 100) = None \<and>
      collectionRecords exampleDecodeHits exampleMarshal ''a'' (replies (exampleSource ''a'' 100)) =
      Some ([\<lparr>Id = ''a'' @ ''1'', Type = ''a'', Doc = ''{}''\<rparr>], None)"
    by code_simp
  have b: "opened (exampleSource ''b'' 100) = None \<and>
      collectionRecords exampleDecodeHits exampleMarshal ''b'' (replies (exampleSource ''b'' 100)) =
      Some ([\<lparr>Id = ''b'' @ ''1'', Type = ''b'', Doc = ''{}''\<rparr>], None)"
    by code_simp
  have each: "opened (exampleSource t 100) = None \<and>
      collectionRecords exampleDecodeHits exampleMarshal t (replies (exampleSource t 100)) =
      Some ([\<lparr>Id = t @ ''1'', Type = t, Doc = ''{}''\<rparr>], None)"
    if "t \<in> set [''a'', ''b'']" for t
  proof -
    from that have "t = ''a'' \<or> t = ''b''" by (simp only: list.set insert_iff empty_iff) blast
    with a b show ?thesis by blast
  qed
  from StreamTo_batches_per_collection [where decodeHits = exampleDecodeHits
      and marshal = exampleMarshal and es = exampleSource and types = "[''a'', ''b'']"
      and window = 100 and bulkSize = 2
      and recs = "\<lambda>t. [\<lparr>Id = t @ ''1'', Type = t, Doc = ''{}''\<rparr>]", OF each]
  have "StreamTo exampleDecodeHits exampleMarshal exampleSource [''a'', ''b''] 100 2 [] =
      Some (\<lparr>sent = concat (map (\<lambda>t. dest (Flush (puts (newBatcher 2 [])
          [\<lparr>Id = t @ ''1'', Type = t, Doc = ''{}''\<rparr>]))) [''a'', ''b'']), closed = True\<rparr>, None)"
    by (rule conjunct1)
  then have "StreamTo exampleDecodeHits exampleMarshal exampleSource [''a'', ''b''] 100 2 [] =
     Some (\<lparr>sent = [[\<lparr>Id = ''a1'', Type = ''a'', Doc = ''{}''\<rparr>],
                    [\<lparr>Id = ''b1'', Type = ''b'', Doc = ''{}''\<rparr>]],
             closed = True\<rparr>, None)"
    by (simp add: puts_def Put_def Flush_def newBatcher_def Let_def)
  with a b show ?thesis by simp
qed

text \<open>
  Claim C3 as stated fails. Two collections of one document each, batches of two: the
  code sends two batches of one record, the first when the cursor of collection \<open>a\<close> is
  exhausted. The Extractor of the claim (no \<open>Flush\<close> between collections, one at the end)
  sends one batch of two records that spans both collections.
\<close>

theorem StreamTo_flushes_between_collections:
  "StreamTo exampleDecodeHits exampleMarshal exampleSource [''a'', ''b''] 100 2 [] =
     Some (\<lparr>sent = [[\<lparr>Id = ''a1'', Type = ''a'', Doc = ''{}''\<rparr>],
                    [\<lparr>Id = ''b1'', Type = ''b'', Doc = ''{}''\<rparr>]],
             closed = True\<rparr>, None)
   \<and> spec_StreamTo exampleDecodeHits exampleMarshal exampleSource [''a'', ''b''] 100 2 [] =
     Some (\<lparr>sent = [[\<lparr>Id = ''a1'', Type = ''a'', Doc = ''{}''\<rparr>,
                     \<lparr>Id = ''b1'', Type = ''b'', Doc = ''{}''\<rparr>]],
             closed = True\<rparr>, None)"
  by code_simp


section \<open>A scroll page that is not JSON\<close>

lemma scrollLoop_stops:
  assumes "\<not> (length (fst (Next decodeHits got)) \<noteq> 0 \<and> snd (Next decodeHits got) = None)"
  shows "scrollLoop decodeHits marshal t (got # rest) b = Some (b, None)"
  using assms by (cases "Next decodeHits got") auto

lemma scrollLoop_same_until_stop:
  assumes "\<not> (length (fst (Next decodeHits x)) \<noteq> 0 \<and> snd (Next decodeHits x) = None)"
    and "\<not> (length (fst (Next decodeHits y)) \<noteq> 0 \<and> snd (Next decodeHits y) = None)"
  shows "scrollLoop decodeHits marshal t (pre @ x # rest) b =
         scrollLoop decodeHits marshal t (pre @ [y]) b"
proof (induction pre arbitrary: b)
  case Nil
  show ?case
    by (simp only: append_Nil scrollLoop_stops [OF assms(1)] scrollLoop_stops [OF assms(2)])
next
  case (Cons got pre)
  obtain hits err where n: "Next decodeHits got = (hits, err)"
    by (cases "Next decodeHits got")
  obtain b1 q where ph: "putHits marshal t hits b = (b1, q)"
    by (cases "putHits marshal t hits b")
  show ?case
    by (cases q) (simp_all add: n ph Cons.IH)
qed

text \<open>
  Claim C10. Whenever the body of the response was read, \<open>Next\<close> returns no error. For a
  body that is not JSON it returns the empty list of hits and no error, which is what it
  returns for a terminal page \<open>j\<close> (one that decodes to no hits). The page loop of
  \<open>readBulk\<close> ends on it without a panic, leaving the later pages unread; and \<open>readBulk\<close>
  gives the same result for a scroll whose pages are \<open>pre\<close>, a body that is not JSON and
  then more pages, as for the scroll that ends after \<open>pre\<close> with the terminal page.
\<close>

theorem Next_malformed_body_ends_scroll:
  assumes "fst (decodeHits j []) = []"
  shows "snd (Next decodeHits (Inr (Inr data))) = None
       \<and> Next decodeHits (Inr (Inr (NotJson s))) = ([], None)
       \<and> Next decodeHits (Inr (Inr (NotJson s))) = Next decodeHits (Inr (Inr (Json j)))
       \<and> scrollLoop decodeHits marshal t (Inr (Inr (NotJson s)) # rest) b = Some (b, None)
       \<and> readBulk decodeHits marshal
            (\<lambda>t w. \<lparr>opened = None, replies = pre @ Inr (Inr (NotJson s)) # rest\<rparr>)
            t window bulkSize d =
          readBulk decodeHits marshal
            (\<lambda>t w. \<lparr>opened = None, replies = pre @ [Inr (Inr (Json j))]\<rparr>)
            t window bulkSize d"
proof -
  have nil: "snd (Next decodeHits (Inr (Inr data))) = None"
    by (simp add: Next_def)
  have bad: "Next decodeHits (Inr (Inr (NotJson s))) = ([], None)"
    by (simp add: Next_def Unmarshal_def)
  have good: "Next decodeHits (Inr (Inr (Json j))) = ([], None)"
    using assms by (simp add: Next_def Unmarshal_def)
  have stop_bad: "\<not> (length (fst (Next decodeHits (Inr (Inr (NotJson s))))) \<noteq> 0 \<and>
      snd (Next decodeHits (Inr (Inr (NotJson s)))) = None)"
    by (simp add: bad)
  have stop_good: "\<not> (length (fst (Next decodeHits (Inr (Inr (Json j))))) \<noteq> 0 \<and>
      snd (Next decodeHits (Inr (Inr (Json j)))) = None)"
    by (simp add: good)
  have loop: "scrollLoop decodeHits marshal t (Inr (Inr (NotJson s)) # rest) b = Some (b, None)"
    using stop_bad by (rule scrollLoop_stops)
  have same: "scrollLoop decodeHits marshal t (pre @ Inr (Inr (NotJson s)) # rest) b0 =
      scrollLoop decodeHits marshal t (pre @ [Inr (Inr (Json j))]) b0" for b0
    using stop_bad stop_good by (rule scrollLoop_same_until_stop)
  have rb: "readBulk decodeHits marshal
        (\<lambda>t w. \<lparr>opened = None, replies = pre @ Inr (Inr (NotJson s)) # rest\<rparr>)
        t window bulkSize d =
      readBulk decodeHits marshal
        (\<lambda>t w. \<lparr>opened = None, replies = pre @ [Inr (Inr (Json j))]\<rparr>)
        t window bulkSize d"
    by (simp add: readBulk_def same)
  from nil bad good loop rb show ?thesis by simp
qed

theorem Next_malformed_body_ends_scroll_witness:
  "readBulk exampleDecodeHits exampleMarshal
     (\<lambda>t w. \<lparr>opened = None,
        replies =
          [Inr (Inr (Json (JArray [JObject [(''_id'', JString ''a1''), (''_source'', JObject [])]])))] @
          Inr (Inr (NotJson ''<html>502 Bad Gateway</html>'')) #
          [Inr (Inr (Json (JArray [JObject [(''_id'', JString ''a2''), (''_source'', JObject [])]]))),
           Inr (Inr (Json (JArray [])))]\<rparr>)
     ''a'' 100 2 [] =
   readBulk exampleDecodeHits exampleMarshal
     (\<lambda>t w. \<lparr>opened = None,
        replies =
          [Inr (Inr (Json (JArray [JObject [(''_id'', JString ''a1''), (''_source'', JObject [])]])))] @
          [Inr (Inr (Json (JArray [])))]\<rparr>)
     ''a'' 100 2 []
   \<and> readBulk exampleDecodeHits exampleMarshal
     (\<lambda>t w. \<lparr>opened = None,
        replies =
          [Inr (Inr (Json (JArray [JObject [(''_id'', JString ''a1''), (''_source'', JObject [])]])))] @
          [Inr (Inr (Json (JArray [])))]\<rparr>)
     ''a'' 100 2 [] =
     Some ([[\<lparr>Id = ''a1'', Type = ''a'', Doc = ''{}''\<rparr>]], None)"
proof -
  have h: "fst (exampleDecodeHits (JArray []) []) = []"
    by (simp add: exampleDecodeHits_def)
  have v: "readBulk exampleDecodeHits exampleMarshal
     (\<lambda>t w. \<lparr>opened = None,
        replies =
          [Inr (Inr (Json (JArray [JObject [(''_id'', JString ''a1''), (''_source'', JObject [])]])))] @
          [Inr (Inr (Json (JArray [])))]\<rparr>)
     ''a'' 100 2 [] =
     Some ([[\<lparr>Id = ''a1'', Type = ''a'', Doc = ''{}''\<rparr>]], None)"
    by code_simp
  from Next_malformed_body_ends_scroll [where decodeHits = exampleDecodeHits and j = "JArray []"
      and marshal = exampleMarshal and t = "''a''" and window = 100 and bulkSize = 2 and d = "[]"
      and s = "''<html>502 Bad Gateway</html>''"
      and pre = "[Inr (Inr (Json (JArray [JObject [(''_id'', JString ''a1''), (''_source'', JObject [])]])))]"
      and rest = "[Inr (Inr (Json (JArray [JObject [(''_id'', JString ''a2''), (''_source'', JObject [])]]))),
           Inr (Inr (Json (JArray [])))]", OF h,
      THEN conjunct2, THEN conjunct2, THEN conjunct2, THEN conjunct2]
  show ?thesis using v by (rule conjI)
qed

section \<open>The Ingestor: the steps of a goroutine\<close>



lemma Bulk_error_no_leftover:
  assumes "EsConn_Bulk decodeResp readRequest ops = ((ret, Some e), lg)"
  shows "ret = []"
  using assms
  by (auto simp: EsConn_Bulk_def split: sum.splits prod.splits option.splits if_splits)


lemma workerStep_call_error:
  assumes "panicked s = None" and "i < length (workers s)"
    and "at (workers s ! i) = Submitting ops \<or>
         at (workers s ! i) = Resubmitting \<and> ops = leftover (workers s ! i)"
    and "EsConn_Bulk decodeResp (\<lambda>body. reply) ops = ((ret, Some e), lg)"
  shows "workerStep decodeResp i reply s =
     s\<lparr>workers := (workers s)[i := (workers s ! i)\<lparr>leftover := ret\<rparr>], err := Some e,
       logged := logged s @ lg, calls := calls s @ [(i, ops, reply)], panicked := Some e\<rparr>"
  using assms by (auto simp: workerStep_def callBulk_def Let_def)

lemma workerStep_submit:
  assumes "panicked s = None" and "i < length (workers s)"
    and "at (workers s ! i) = Submitting ops"
    and "EsConn_Bulk decodeResp (\<lambda>body. reply) ops = ((ret, None), lg)"
  shows "workerStep decodeResp i reply s =
     s\<lparr>workers := (workers s)[i := (workers s ! i)\<lparr>leftover := ret, at := Receiving\<rparr>],
       err := None,
       logged := logged s @ lg @ [LogImported (int (length ops) - int (length ret)) (int (length ops))],
       calls := calls s @ [(i, ops, reply)]\<rparr>"
  using assms by (simp add: workerStep_def callBulk_def Let_def)

lemma workerStep_resubmit:
  assumes "panicked s = None" and "i < length (workers s)"
    and "at (workers s ! i) = Resubmitting"
    and "EsConn_Bulk decodeResp (\<lambda>body. reply) (leftover (workers s ! i)) = ((ret, None), lg)"
  shows "workerStep decodeResp i reply s =
     s\<lparr>workers := (workers s)[i := (workers s ! i)\<lparr>leftover := ret, at := Draining\<rparr>],
       err := None,
       logged := logged s @ lg,
       calls := calls s @ [(i, leftover (workers s ! i), reply)]\<rparr>"
  using assms by (simp add: workerStep_def callBulk_def Let_def)

lemma workerStep_call_panics:
  assumes "panicked s = None" and "i < length (workers s)"
    and "at (workers s ! i) = Submitting ops \<or>
         at (workers s ! i) = Resubmitting \<and> ops = leftover (workers s ! i)"
    and "EsConn_Bulk decodeResp (\<lambda>body. reply) ops = ((ret, Some e), lg)"
  shows "panicked (workerStep decodeResp i reply s) = Some e"
  using workerStep_call_error [OF assms] by simp

lemma dead_step: "panicked s \<noteq> None \<Longrightarrow> step decodeResp s ev = s"
  by (cases ev) (simp_all add: step_def workerStep_def)

lemma dead_foldl: "panicked s \<noteq> None \<Longrightarrow> foldl (step decodeResp) s events = s"
  by (induction events) (simp_all add: dead_step)




text \<open>
  A step leaves one of five states: the state itself; the state after a receive; the
  state after a move from one place to another with the leftover kept; the state after a
  call that returned no error; a state in which the process has panicked.
\<close>

lemma workerStep_cases:
  assumes live: "panicked s = None" and i: "i < length (workers s)"
  obtains
    (same) "workerStep decodeResp i reply s = s"
  | (receive) received q where "at (workers s ! i) = Receiving" "src s = received # q"
      "workerStep decodeResp i reply s =
         s\<lparr>workers := (workers s)[i := (workers s ! i)\<lparr>at := Submitting (received @ leftover (workers s ! i))\<rparr>],
           src := q, pulled := pulled s @ received\<rparr>"
  | (closed) "at (workers s ! i) = Receiving" "src s = []" "srcClosed s"
      "workerStep decodeResp i reply s = s\<lparr>workers := (workers s)[i := (workers s ! i)\<lparr>at := Draining\<rparr>]\<rparr>"
  | (push) "at (workers s ! i) = Draining" "leftover (workers s ! i) \<noteq> []"
      "workerStep decodeResp i reply s =
         s\<lparr>workers := (workers s)[i := (workers s ! i)\<lparr>at := Resubmitting\<rparr>],
           logged := logged s @ [LogPushing (int (length (leftover (workers s ! i))))]\<rparr>"
  | (finish) "at (workers s ! i) = Draining" "leftover (workers s ! i) = []"
      "workerStep decodeResp i reply s = s\<lparr>workers := (workers s)[i := (workers s ! i)\<lparr>at := Finished\<rparr>]\<rparr>"
  | (submit) ops ret lg where "at (workers s ! i) = Submitting ops"
      "EsConn_Bulk decodeResp (\<lambda>body. reply) ops = ((ret, None), lg)"
      "workerStep decodeResp i reply s =
         s\<lparr>workers := (workers s)[i := (workers s ! i)\<lparr>leftover := ret, at := Receiving\<rparr>],
           err := None,
           logged := logged s @ lg @ [LogImported (int (length ops) - int (length ret)) (int (length ops))],
           calls := calls s @ [(i, ops, reply)]\<rparr>"
  | (resubmit) ret lg where "at (workers s ! i) = Resubmitting"
      "EsConn_Bulk decodeResp (\<lambda>body. reply) (leftover (workers s ! i)) = ((ret, None), lg)"
      "workerStep decodeResp i reply s =
         s\<lparr>workers := (workers s)[i := (workers s ! i)\<lparr>leftover := ret, at := Draining\<rparr>],
           err := None,
           logged := logged s @ lg,
           calls := calls s @ [(i, leftover (workers s ! i), reply)]\<rparr>"
  | (panic) e where "panicked (workerStep decodeResp i reply s) = Some e"
proof (cases "at (workers s ! i)")
  case Receiving
  show ?thesis
  proof (cases "src s")
    case Nil
    show ?thesis
    proof (cases "srcClosed s")
      case True
      with live i Receiving Nil show ?thesis
        by (intro closed) (simp_all add: workerStep_def Let_def)
    next
      case False
      with live i Receiving Nil show ?thesis
        by (intro same) (simp add: workerStep_def Let_def)
    qed
  next
    case (Cons received q)
    with live i Receiving show ?thesis
      by (intro receive [of received q]) (simp_all add: workerStep_def Let_def)
  qed
next
  case (Submitting ops)
  obtain ret eo lg where b: "EsConn_Bulk decodeResp (\<lambda>body. reply) ops = ((ret, eo), lg)"
    by (cases "EsConn_Bulk decodeResp (\<lambda>body. reply) ops") auto
  show ?thesis
  proof (cases eo)
    case None
    with b have b1: "EsConn_Bulk decodeResp (\<lambda>body. reply) ops = ((ret, None), lg)" by simp
    show ?thesis
      by (rule submit [OF Submitting b1]) (rule workerStep_submit [OF live i Submitting b1])
  next
    case (Some e)
    with b have b1: "EsConn_Bulk decodeResp (\<lambda>body. reply) ops = ((ret, Some e), lg)" by simp
    show ?thesis
      by (rule panic [of e]) (rule workerStep_call_panics [OF live i _ b1], simp add: Submitting)
  qed
next
  case Draining
  show ?thesis
  proof (cases "leftover (workers s ! i) = []")
    case True
    with live i Draining show ?thesis
      by (intro finish) (simp_all add: workerStep_def Let_def)
  next
    case False
    with live i Draining show ?thesis
      by (intro push) (simp_all add: workerStep_def Let_def)
  qed
next
  case Resubmitting
  obtain ret eo lg where b: "EsConn_Bulk decodeResp (\<lambda>body. reply) (leftover (workers s ! i)) = ((ret, eo), lg)"
    by (cases "EsConn_Bulk decodeResp (\<lambda>body. reply) (leftover (workers s ! i))") auto
  show ?thesis
  proof (cases eo)
    case None
    with b have b1: "EsConn_Bulk decodeResp (\<lambda>body. reply) (leftover (workers s ! i)) = ((ret, None), lg)"
      by simp
    show ?thesis
      by (rule resubmit [OF Resubmitting b1]) (rule workerStep_resubmit [OF live i Resubmitting b1])
  next
    case (Some e)
    with b have b1: "EsConn_Bulk decodeResp (\<lambda>body. reply) (leftover (workers s ! i)) = ((ret, Some e), lg)"
      by simp
    show ?thesis
      by (rule panic [of e]) (rule workerStep_call_panics [OF live i _ b1], simp add: Resubmitting)
  qed
next
  case Finished
  with live i show ?thesis
    by (intro same) (simp add: workerStep_def Let_def)
qed

section \<open>The Ingestor: a failed submission\<close>

lemma errNone_workerStep:
  assumes "panicked s = None \<longrightarrow> err s = None"
  shows "panicked (workerStep decodeResp i reply s) = None \<longrightarrow> err (workerStep decodeResp i reply s) = None"
proof (cases "panicked s \<noteq> None \<or> \<not> i < length (workers s)")
  case True
  with assms show ?thesis by (auto simp: workerStep_def)
next
  case False
  then have live: "panicked s = None" and i: "i < length (workers s)" by auto
  from assms live have e: "err s = None" by simp
  from live i show ?thesis
    by (cases rule: workerStep_cases [where decodeResp = decodeResp and reply = reply])
       (simp_all add: e)
qed

lemma errNone_step:
  assumes "panicked s = None \<longrightarrow> err s = None"
  shows "panicked (step decodeResp s ev) = None \<longrightarrow> err (step decodeResp s ev) = None"
proof (cases ev)
  case (Send produced)
  with assms show ?thesis by (auto simp: step_def)
next
  case Close
  with assms show ?thesis by (auto simp: step_def)
next
  case (Step i reply)
  with assms show ?thesis by (simp add: step_def errNone_workerStep)
qed

lemma errNone_foldl:
  assumes "panicked s = None \<longrightarrow> err s = None"
  shows "panicked (foldl (step decodeResp) s events) = None \<longrightarrow>
     err (foldl (step decodeResp) s events) = None"
  using assms
proof (induction events arbitrary: s)
  case Nil
  then show ?case by simp
next
  case (Cons ev events)
  from Cons.prems have "panicked (step decodeResp s ev) = None \<longrightarrow> err (step decodeResp s ev) = None"
    by (rule errNone_step)
  then show ?case using Cons.IH by simp
qed

lemma returned_nil:
  assumes "outcome (AcceptFrom decodeResp parallel events) = Returned x"
  shows "x = None"
proof -
  let ?s = "AcceptFrom decodeResp parallel events"
  from assms have live: "panicked ?s = None" and x: "x = err ?s"
    by (auto simp: outcome_def split: option.splits if_splits)
  have "panicked (startIngest parallel) = None \<longrightarrow> err (startIngest parallel) = None"
    by (simp add: startIngest_def)
  then have "panicked ?s = None \<longrightarrow> err ?s = None"
    unfolding AcceptFrom_def by (rule errNone_foldl)
  with live x show ?thesis by simp
qed

text \<open>
  Claim C7, amended. When a goroutine's call of \<open>Bulk\<close> returns an error, in the loop
  that receives batches or in the loop that submits the leftover again, the goroutine
  panics with that error: the error comes with no leftover, the state after the call has
  the panic and no \<open>Imported\<close> line, and nothing moves after it, whatever the schedule goes
  on with: the process is gone and \<open>AcceptFrom\<close> does not return. The error is not
  \<open>AcceptFrom\<close>'s return value: whenever \<open>AcceptFrom\<close> returns, under any schedule, it
  returns nil.
\<close>

theorem AcceptFrom_error_panics:
  "(panicked s = None \<and> i < length (workers s) \<and>
      (at (workers s ! i) = Submitting ops \<or>
       at (workers s ! i) = Resubmitting \<and> ops = leftover (workers s ! i)) \<and>
      EsConn_Bulk decodeResp (\<lambda>body. reply) ops = ((ret, Some e), lg) \<longrightarrow>
        ret = [] \<and>
        foldl (step decodeResp) s (Step i reply # events) =
          s\<lparr>workers := (workers s)[i := (workers s ! i)\<lparr>leftover := []\<rparr>], err := Some e,
            logged := logged s @ lg, calls := calls s @ [(i, ops, reply)], panicked := Some e\<rparr> \<and>
        outcome (foldl (step decodeResp) s (Step i reply # events)) = Panicked e)
   \<and> (panicked s = Some e \<longrightarrow>
        foldl (step decodeResp) s events = s \<and> outcome s = Panicked e)
   \<and> (outcome (AcceptFrom decodeResp parallel events) = Returned x \<longrightarrow> x = None)"
proof (intro conjI impI)
  assume a: "panicked s = None \<and> i < length (workers s) \<and>
      (at (workers s ! i) = Submitting ops \<or>
       at (workers s ! i) = Resubmitting \<and> ops = leftover (workers s ! i)) \<and>
      EsConn_Bulk decodeResp (\<lambda>body. reply) ops = ((ret, Some e), lg)"
  then have live: "panicked s = None" and i: "i < length (workers s)"
    and pl: "at (workers s ! i) = Submitting ops \<or>
       at (workers s ! i) = Resubmitting \<and> ops = leftover (workers s ! i)"
    and b: "EsConn_Bulk decodeResp (\<lambda>body. reply) ops = ((ret, Some e), lg)"
    by simp_all
  from b show nil: "ret = []" by (rule Bulk_error_no_leftover)
  let ?s1 = "s\<lparr>workers := (workers s)[i := (workers s ! i)\<lparr>leftover := []\<rparr>], err := Some e,
            logged := logged s @ lg, calls := calls s @ [(i, ops, reply)], panicked := Some e\<rparr>"
  have one: "step decodeResp s (Step i reply) = ?s1"
    using workerStep_call_error [OF live i pl b] nil by (simp add: step_def)
  have "foldl (step decodeResp) ?s1 events = ?s1"
    by (rule dead_foldl) simp
  with one show run: "foldl (step decodeResp) s (Step i reply # events) = ?s1"
    by simp
  show "outcome (foldl (step decodeResp) s (Step i reply # events)) = Panicked e"
    unfolding run by (simp add: outcome_def)
next
  assume "panicked s = Some e"
  then show "foldl (step decodeResp) s events = s"
    by (simp add: dead_foldl)
next
  assume "panicked s = Some e"
  then show "outcome s = Panicked e"
    by (simp add: outcome_def)
next
  assume "outcome (AcceptFrom decodeResp parallel events) = Returned x"
  then show "x = None" by (rule returned_nil)
qed

theorem AcceptFrom_error_panics_witness:
  "outcome (AcceptFrom exampleDecodeResp 1 singleBatchSchedule) = Returned None
   \<and> foldl (step exampleDecodeResp) (AcceptFrom exampleDecodeResp 1 failedCallSchedule)
        [Step 0 (Inr (Json JNull)), Close] =
      AcceptFrom exampleDecodeResp 1 failedCallSchedule
   \<and> outcome (AcceptFrom exampleDecodeResp 1 failedCallSchedule) =
      Panicked (TransportError ''connection reset'')
   \<and> outcome (foldl (step exampleDecodeResp) (AcceptFrom exampleDecodeResp 1 (take 3 failedCallSchedule))
        [Step 0 (Inl (TransportError ''connection reset'')), Step 0 (Inr (Json createdResponse))]) =
      Panicked (TransportError ''connection reset'')
   \<and> outcome (foldl (step exampleDecodeResp) (AcceptFrom exampleDecodeResp 1 (take 6 failedRetrySchedule))
        [Step 0 (Inl (TransportError ''connection reset'')), Step 0 (Inr (Json createdResponse))]) =
      Panicked (TransportError ''connection reset'')"
proof -
  have ret: "outcome (AcceptFrom exampleDecodeResp 1 singleBatchSchedule) =
      Returned (err (AcceptFrom exampleDecodeResp 1 singleBatchSchedule))"
    by code_simp
  from AcceptFrom_error_panics [THEN conjunct2, THEN conjunct2, rule_format, OF ret]
  have "err (AcceptFrom exampleDecodeResp 1 singleBatchSchedule) = None" .
  with ret have one: "outcome (AcceptFrom exampleDecodeResp 1 singleBatchSchedule) = Returned None"
    by simp
  have dead: "panicked (AcceptFrom exampleDecodeResp 1 failedCallSchedule) =
      Some (TransportError ''connection reset'')"
    by code_simp
  note two = AcceptFrom_error_panics [where decodeResp = exampleDecodeResp
      and s = "AcceptFrom exampleDecodeResp 1 failedCallSchedule"
      and e = "TransportError ''connection reset''"
      and events = "[Step 0 (Inr (Json JNull)), Close]",
      THEN conjunct2, THEN conjunct1, rule_format, OF dead]
  have sub: "panicked (AcceptFrom exampleDecodeResp 1 (take 3 failedCallSchedule)) = None \<and>
      0 < length (workers (AcceptFrom exampleDecodeResp 1 (take 3 failedCallSchedule))) \<and>
      (at (workers (AcceptFrom exampleDecodeResp 1 (take 3 failedCallSchedule)) ! 0) =
         Submitting [\<lparr>Id = ''1'', Type = ''t'', Doc = ''{}''\<rparr>] \<or>
       at (workers (AcceptFrom exampleDecodeResp 1 (take 3 failedCallSchedule)) ! 0) = Resubmitting \<and>
       [\<lparr>Id = ''1'', Type = ''t'', Doc = ''{}''\<rparr>] =
         leftover (workers (AcceptFrom exampleDecodeResp 1 (take 3 failedCallSchedule)) ! 0)) \<and>
      EsConn_Bulk exampleDecodeResp (\<lambda>body. Inl (TransportError ''connection reset''))
        [\<lparr>Id = ''1'', Type = ''t'', Doc = ''{}''\<rparr>] =
        (([], Some (TransportError ''connection reset'')), [])"
    by code_simp
  note three = AcceptFrom_error_panics [where decodeResp = exampleDecodeResp
      and s = "AcceptFrom exampleDecodeResp 1 (take 3 failedCallSchedule)" and i = 0
      and ops = "[\<lparr>Id = ''1'', Type = ''t'', Doc = ''{}''\<rparr>]"
      and reply = "Inl (TransportError ''connection reset'')"
      and e = "TransportError ''connection reset''" and ret = "[]" and lg = "[]"
      and events = "[Step 0 (Inr (Json createdResponse))]",
      THEN conjunct1, rule_format, OF sub, THEN conjunct2, THEN conjunct2]
  have resub: "panicked (AcceptFrom exampleDecodeResp 1 (take 6 failedRetrySchedule)) = None \<and>
      0 < length (workers (AcceptFrom exampleDecodeResp 1 (take 6 failedRetrySchedule))) \<and>
      (at (workers (AcceptFrom exampleDecodeResp 1 (take 6 failedRetrySchedule)) ! 0) =
         Submitting [\<lparr>Id = ''1'', Type = ''t'', Doc = ''{}''\<rparr>] \<or>
       at (workers (AcceptFrom exampleDecodeResp 1 (take 6 failedRetrySchedule)) ! 0) = Resubmitting \<and>
       [\<lparr>Id = ''1'', Type = ''t'', Doc = ''{}''\<rparr>] =
         leftover (workers (AcceptFrom exampleDecodeResp 1 (take 6 failedRetrySchedule)) ! 0)) \<and>
      EsConn_Bulk exampleDecodeResp (\<lambda>body. Inl (TransportError ''connection reset''))
        [\<lparr>Id = ''1'', Type = ''t'', Doc = ''{}''\<rparr>] =
        (([], Some (TransportError ''connection reset'')), [])"
    by code_simp
  note four = AcceptFrom_error_panics [where decodeResp = exampleDecodeResp
      and s = "AcceptFrom exampleDecodeResp 1 (take 6 failedRetrySchedule)" and i = 0
      and ops = "[\<lparr>Id = ''1'', Type = ''t'', Doc = ''{}''\<rparr>]"
      and reply = "Inl (TransportError ''connection reset'')"
      and e = "TransportError ''connection reset''" and ret = "[]" and lg = "[]"
      and events = "[Step 0 (Inr (Json createdResponse))]",
      THEN conjunct1, rule_format, OF resub, THEN conjunct2, THEN conjunct2]
  from one two [THEN conjunct1] two [THEN conjunct2] three four show ?thesis by (intro conjI)
qed

text \<open>
  Claim C7 as stated fails: with one goroutine and one batch whose submission fails,
  \<open>AcceptFrom\<close> does not return the error; the process panics. It panics as well when the
  submission that fails is that of the leftover, after the channel was closed.
\<close>

theorem AcceptFrom_panics_on_failed_call:
  "outcome (AcceptFrom exampleDecodeResp 1 failedCallSchedule) =
     Panicked (TransportError ''connection reset'')
   \<and> outcome (AcceptFrom exampleDecodeResp 1 failedCallSchedule) \<noteq>
     Returned (Some (TransportError ''connection reset''))
   \<and> outcome (AcceptFrom exampleDecodeResp 1 failedRetrySchedule) =
     Panicked (TransportError ''connection reset'')"
  by code_simp

section \<open>The Ingestor: what has happened when \<open>AcceptFrom\<close> returns\<close>



















end
